theory Spec2Isabelle
  imports Main
begin

section \<open>JavaScript strings and values\<close>

text \<open>
  A string is the list of the bytes of its UTF-8 encoding: an ASCII character is one
  \<open>char\<close>, any other code point is a lead byte followed by continuation bytes.  The
  program never takes the length of a string or indexes into one, and it splits only at
  ASCII characters, so the bytes behave as the text does.  A value that may be \<^verbatim>\<open>undefined\<close> (a missing query
  parameter, a missing JSON field) is an \<open>option\<close>; interpolating it into a template
  literal prints \<^verbatim>\<open>undefined\<close>, and its truthiness is that of JavaScript: absent and
  the empty string are falsy.
\<close>

definition js_str :: "string option \<Rightarrow> string" where
  "js_str v = (case v of None \<Rightarrow> ''undefined'' | Some s \<Rightarrow> s)"

definition truthy :: "string option \<Rightarrow> bool" where
  "truthy v = (case v of None \<Rightarrow> False | Some s \<Rightarrow> s \<noteq> [])"

text \<open>\<^verbatim>\<open>Array.prototype.join\<close> on an array of strings.\<close>

fun js_join :: "string \<Rightarrow> string list \<Rightarrow> string" where
  "js_join sep [] = []"
| "js_join sep [x] = x"
| "js_join sep (x # y # ys) = x @ sep @ js_join sep (y # ys)"

text \<open>
  \<^verbatim>\<open>String.prototype.split\<close> with a one-character separator: the result is never
  empty, and the empty string splits into one empty token.
\<close>

fun js_split :: "char \<Rightarrow> string \<Rightarrow> string list" where
  "js_split c [] = [[]]"
| "js_split c (x # xs) =
     (if x = c then [] # js_split c xs
      else (case js_split c xs of [] \<Rightarrow> [[x]] | t # ts \<Rightarrow> (x # t) # ts))"

text \<open>
  Case mapping on the ASCII range.  The only comparison the program makes after
  \<^verbatim>\<open>toLowerCase\<close> is against \<^verbatim>\<open>sports\<close>, and no character outside ASCII lowers to one
  of its letters; \<^verbatim>\<open>toUpperCase\<close> is applied to region codes.
\<close>

definition lowerChar :: "char \<Rightarrow> char" where
  "lowerChar c =
     (let n = (of_char c :: nat) in if 65 \<le> n \<and> n \<le> 90 then char_of (n + 32) else c)"

definition upperChar :: "char \<Rightarrow> char" where
  "upperChar c =
     (let n = (of_char c :: nat) in if 97 \<le> n \<and> n \<le> 122 then char_of (n - 32) else c)"

definition toLowerCase :: "string \<Rightarrow> string" where
  "toLowerCase s = map lowerChar s"

definition toUpperCase :: "string \<Rightarrow> string" where
  "toUpperCase s = map upperChar s"

text \<open>
  The code points of a string, each as the bytes that encode it: a byte that is not a
  continuation byte (\<open>10xxxxxx\<close>) starts a code point and takes the continuation bytes
  that follow it.
\<close>

definition isContinuation :: "char \<Rightarrow> bool" where
  "isContinuation c = (128 \<le> (of_char c :: nat) \<and> (of_char c :: nat) < 192)"

definition codePointStep :: "char \<Rightarrow> string \<times> string list \<Rightarrow> string \<times> string list" where
  "codePointStep c acc =
     (case acc of
        (pending, cps) \<Rightarrow>
          if isContinuation c then (c # pending, cps) else ([], (c # pending) # cps))"

definition codePoints :: "string \<Rightarrow> string list" where
  "codePoints s =
     (case foldr codePointStep s ([], []) of
        (pending, cps) \<Rightarrow> if pending = [] then cps else pending # cps)"

text \<open>
  The code points \<^verbatim>\<open>String.prototype.trim\<close> strips, which are the WhiteSpace and
  LineTerminator code points of ECMAScript: U+0009 to U+000D, U+0020, U+00A0, U+1680,
  U+2000 to U+200A, U+2028, U+2029, U+202F, U+205F, U+3000 and U+FEFF.
\<close>

definition whiteSpace :: "string list" where
  "whiteSpace =
     [[CHR 0x09], [CHR 0x0A], [CHR 0x0B], [CHR 0x0C], [CHR 0x0D], [CHR 0x20],
      [CHR 0xC2, CHR 0xA0],
      [CHR 0xE1, CHR 0x9A, CHR 0x80],
      [CHR 0xE2, CHR 0x80, CHR 0x80], [CHR 0xE2, CHR 0x80, CHR 0x81],
      [CHR 0xE2, CHR 0x80, CHR 0x82], [CHR 0xE2, CHR 0x80, CHR 0x83],
      [CHR 0xE2, CHR 0x80, CHR 0x84], [CHR 0xE2, CHR 0x80, CHR 0x85],
      [CHR 0xE2, CHR 0x80, CHR 0x86], [CHR 0xE2, CHR 0x80, CHR 0x87],
      [CHR 0xE2, CHR 0x80, CHR 0x88], [CHR 0xE2, CHR 0x80, CHR 0x89],
      [CHR 0xE2, CHR 0x80, CHR 0x8A],
      [CHR 0xE2, CHR 0x80, CHR 0xA8], [CHR 0xE2, CHR 0x80, CHR 0xA9],
      [CHR 0xE2, CHR 0x80, CHR 0xAF],
      [CHR 0xE2, CHR 0x81, CHR 0x9F],
      [CHR 0xE3, CHR 0x80, CHR 0x80],
      [CHR 0xEF, CHR 0xBB, CHR 0xBF]]"

definition isWhiteSpace :: "string \<Rightarrow> bool" where
  "isWhiteSpace cp = (cp \<in> set whiteSpace)"

text \<open>\<^verbatim>\<open>String.prototype.trim\<close>: the white space code points at both ends are removed.\<close>

definition trim :: "string \<Rightarrow> string" where
  "trim s = concat (rev (dropWhile isWhiteSpace (rev (dropWhile isWhiteSpace (codePoints s)))))"

definition dquote :: string where
  "dquote = [CHR 0x22]"

definition newline :: string where
  "newline = [CHR 0x0A]"

section \<open>Upstream API\<close>

text \<open>
  The JSON documents of the upstream API, with every field the program reads allowed
  to be missing.
\<close>

record stream =
  url :: "string option"

record channel_meta =
  tvgId :: "string option"
  logo :: "string option"
  genres :: "string list option"
  name :: "string option"
  streams :: "stream option list option"

record m3u_doc =
  meta :: "channel_meta option"

record channel_stub =
  id' :: string

record catalog =
  metas :: "channel_stub list option"

text \<open>
  A reply of the HTTP client: \<open>ok\<close> is \<^verbatim>\<open>response.ok\<close>, \<open>json\<close> is the value
  \<^verbatim>\<open>response.json()\<close> resolves to, \<open>None\<close> when it rejects.  A fetch that rejects
  (network failure) is the reply \<open>None\<close>.
\<close>

record 'a response =
  ok :: bool
  json :: "'a option"

text \<open>
  The upstream as the program sees it during one build: the reply to a catalog URL, and
  the reply to a channel URL at a given attempt of the retry loop (replies depend on the
  URL and the attempt number only).  The body of a channel reply may be the JSON value
  \<^verbatim>\<open>null\<close> (\<open>None\<close>).
\<close>

record upstream =
  catalogReply :: "string \<Rightarrow> catalog response option"
  metaReply :: "string \<Rightarrow> nat \<Rightarrow> m3u_doc option response option"

datatype error = NetworkError | HttpError | JsonError | TypeError

text \<open>What the program observably does to the outside: HTTP requests and waits.\<close>

datatype event = Fetch string | Delay nat

definition baseUrl :: string where
  "baseUrl = ''https://tv-addon.debridio.com/''"

definition metaUrl :: "string \<Rightarrow> string \<Rightarrow> string" where
  "metaUrl apikey channelId = baseUrl @ apikey @ ''/meta/tv/'' @ channelId"

definition catalogUrl :: "string \<Rightarrow> string \<Rightarrow> string" where
  "catalogUrl apikey region = baseUrl @ apikey @ ''/catalog/tv/'' @ region @ ''.json''"

text \<open>
  \<^verbatim>\<open>fetch\<close>, the \<^verbatim>\<open>response.ok\<close> check and \<^verbatim>\<open>response.json()\<close>: each of the three
  can throw.
\<close>

definition fetchJson :: "'a response option \<Rightarrow> error + 'a" where
  "fetchJson reply =
     (case reply of
        None \<Rightarrow> Inl NetworkError
      | Some r \<Rightarrow>
          if \<not> ok r then Inl HttpError
          else (case json r of None \<Rightarrow> Inl JsonError | Some v \<Rightarrow> Inr v))"

subsection \<open>getChannelM3u\<close>

text \<open>
  The retry loop \<^verbatim>\<open>for (let attempt = 1; attempt <= retries; attempt++)\<close>, from a given
  attempt number on.  It returns the channel document (\<open>None\<close> is \<^verbatim>\<open>null\<close>) and the
  requests and waits it made.
\<close>

function getChannelM3u_from ::
  "upstream \<Rightarrow> string \<Rightarrow> string \<Rightarrow> nat \<Rightarrow> nat \<Rightarrow> m3u_doc option \<times> event list" where
  "getChannelM3u_from up channelId apikey retries attempt =
     (if attempt \<le> retries then
        (case fetchJson (metaReply up (metaUrl apikey channelId) attempt) of
           Inr v \<Rightarrow> (v, [Fetch (metaUrl apikey channelId)])
         | Inl err \<Rightarrow>
             (case getChannelM3u_from up channelId apikey retries (attempt + 1) of
                (r, evs) \<Rightarrow>
                  (r, Fetch (metaUrl apikey channelId)
                      # (if attempt < retries then [Delay (500 * attempt)] else []) @ evs)))
      else (None, []))"
  by pat_completeness auto
termination
  by (relation "measure (\<lambda>(up, channelId, apikey, retries, attempt). retries + 1 - attempt)") auto

declare getChannelM3u_from.simps [simp del]

definition getChannelM3u :: "upstream \<Rightarrow> string \<Rightarrow> string \<Rightarrow> nat \<Rightarrow> m3u_doc option \<times> event list" where
  "getChannelM3u up channelId apikey retries = getChannelM3u_from up channelId apikey retries 1"

definition isFetch :: "event \<Rightarrow> bool" where
  "isFetch e = (case e of Fetch u \<Rightarrow> True | Delay n \<Rightarrow> False)"

section \<open>Playlist builder\<close>

definition header :: string where
  "header = ''#EXTM3U''"

text \<open>\<^verbatim>\<open>m3u.meta.genres?.[0] || ''\<close>\<close>

definition primaryGenre :: "channel_meta \<Rightarrow> string" where
  "primaryGenre m = (case genres m of None \<Rightarrow> [] | Some [] \<Rightarrow> [] | Some (g # gs) \<Rightarrow> g)"

text \<open>
  The guard \<^verbatim>\<open>!m3u || !m3u.meta || !m3u.meta.streams || !m3u.meta.streams[0]\<close> of both
  builders: a document passes it with its metadata and its first stream entry.
\<close>

definition usable :: "m3u_doc option \<Rightarrow> (channel_meta \<times> stream) option" where
  "usable d =
     (case d of
        None \<Rightarrow> None
      | Some doc \<Rightarrow>
          (case meta doc of
             None \<Rightarrow> None
           | Some m \<Rightarrow>
               (case streams m of
                  None \<Rightarrow> None
                | Some [] \<Rightarrow> None
                | Some (None # ss) \<Rightarrow> None
                | Some (Some s # ss) \<Rightarrow> Some (m, s))))"

text \<open>The two lines of an entry, as both builders format them.\<close>

definition extinfLine :: "string option \<Rightarrow> string option \<Rightarrow> string \<Rightarrow> string \<Rightarrow> string" where
  "extinfLine tvg lg genre nm =
     ''#EXTINF:-1 tvg-id='' @ dquote @ js_str tvg @ dquote @
     '' tvg-logo='' @ dquote @ js_str lg @ dquote @
     '' group-title='' @ dquote @ genre @ dquote @ '','' @ nm"

definition entryText :: "string option \<Rightarrow> string option \<Rightarrow> string \<Rightarrow> string \<Rightarrow> string option \<Rightarrow> string" where
  "entryText tvg lg genre nm u = extinfLine tvg lg genre nm @ newline @ js_str u"

text \<open>The body of \<^verbatim>\<open>results.forEach\<close> in \<^verbatim>\<open>buildM3U\<close>.\<close>

definition pushEntry :: "bool \<Rightarrow> string list \<Rightarrow> m3u_doc option \<Rightarrow> string list" where
  "pushEntry filterSports m3uEntries d =
     (case usable d of
        None \<Rightarrow> m3uEntries
      | Some (m, s) \<Rightarrow>
          (let genre = primaryGenre m in
           if filterSports \<and> toLowerCase genre \<noteq> ''sports'' then m3uEntries
           else m3uEntries @ [entryText (tvgId m) (logo m) genre (js_str (name m)) (url s)]))"

text \<open>
  \<^verbatim>\<open>Promise.all(channels.map(ch => getChannelM3u(ch.id, apikey)))\<close>: the results in the
  order of the channels; the requests of the concurrent calls are listed channel by
  channel.
\<close>

definition fetchAll :: "upstream \<Rightarrow> string \<Rightarrow> channel_stub list \<Rightarrow> m3u_doc option list \<times> event list" where
  "fetchAll up apikey channels =
     (let rs = map (\<lambda>ch. getChannelM3u up (id' ch) apikey 3) channels
      in (map fst rs, concat (map snd rs)))"

text \<open>The array \<^verbatim>\<open>m3uEntries\<close> after \<^verbatim>\<open>results.forEach\<close>.\<close>

definition m3uEntriesOf :: "bool \<Rightarrow> m3u_doc option list \<Rightarrow> string list" where
  "m3uEntriesOf filterSports results = foldl (pushEntry filterSports) [header] results"

text \<open>
  \<^verbatim>\<open>buildM3U\<close>.  A catalog without \<^verbatim>\<open>metas\<close> makes \<^verbatim>\<open>channels.map\<close> throw a
  TypeError before any request.
\<close>

definition buildM3U :: "upstream \<Rightarrow> catalog \<Rightarrow> string \<Rightarrow> bool \<Rightarrow> (error + string) \<times> event list" where
  "buildM3U up catalogData apikey filterSports =
     (case metas catalogData of
        None \<Rightarrow> (Inl TypeError, [])
      | Some channels \<Rightarrow>
          (case fetchAll up apikey channels of
             (results, evs) \<Rightarrow>
               (Inr (js_join newline (m3uEntriesOf filterSports results)), evs)))"

section \<open>Cache store\<close>

record cache_entry =
  m3u :: string
  timestamp :: int

text \<open>
  The object \<^verbatim>\<open>cache\<close>: its keys in insertion order, as \<^verbatim>\<open>Object.keys\<close> lists them
  (every key the program writes contains an underscore, so none is an array index).
\<close>

type_synonym cache = "(string \<times> cache_entry) list"

fun cache_get :: "cache \<Rightarrow> string \<Rightarrow> cache_entry option" where
  "cache_get [] k = None"
| "cache_get ((k', e) # c) k = (if k' = k then Some e else cache_get c k)"

fun cache_put :: "string \<Rightarrow> cache_entry \<Rightarrow> cache \<Rightarrow> cache" where
  "cache_put k e [] = [(k, e)]"
| "cache_put k e ((k', e') # c) = (if k' = k then (k, e) # c else (k', e') # cache_put k e c)"

definition CACHE_DURATION :: int where
  "CACHE_DURATION = 24 * 60 * 60 * 1000"

definition validRegions :: "string list" where
  "validRegions = [''usa'', ''ca'', ''mx'', ''uk'', ''au'', ''cl'', ''fr'', ''it'', ''za'', ''nz'', ''ee'']"

text \<open>\<^verbatim>\<open>array.includes(v)\<close> for a value that may be undefined.\<close>

definition js_includes :: "string list \<Rightarrow> string option \<Rightarrow> bool" where
  "js_includes xs v = (case v of None \<Rightarrow> False | Some r \<Rightarrow> r \<in> set xs)"

subsection \<open>fetchAndCache\<close>

text \<open>
  \<open>ts\<close> is the value of \<^verbatim>\<open>Date.now()\<close> when the entry is stored.  Every exception of the
  \<^verbatim>\<open>try\<close> block ends in the \<^verbatim>\<open>catch\<close>, which only logs.
\<close>

definition fetchAndCache ::
  "upstream \<Rightarrow> int \<Rightarrow> cache \<Rightarrow> string \<Rightarrow> string \<Rightarrow> bool \<Rightarrow> cache \<times> event list" where
  "fetchAndCache up ts cache apikey region sportsOnly =
     (case fetchJson (catalogReply up (catalogUrl apikey region)) of
        Inl err \<Rightarrow> (cache, [Fetch (catalogUrl apikey region)])
      | Inr catalogData \<Rightarrow>
          (case buildM3U up catalogData apikey sportsOnly of
             (Inl err, evs) \<Rightarrow> (cache, Fetch (catalogUrl apikey region) # evs)
           | (Inr text, evs) \<Rightarrow>
               (let cacheKey = (if sportsOnly then apikey @ ''_'' @ region @ ''_sports''
                                else apikey @ ''_'' @ region)
                in (cache_put cacheKey \<lparr>m3u = text, timestamp = ts\<rparr> cache,
                    Fetch (catalogUrl apikey region) # evs))))"

section \<open>Multi-region sports builder\<close>

record sports_channel =
  ch_tvgId :: "string option"
  ch_logo :: "string option"
  ch_genre :: string
  ch_name :: string
  ch_url :: "string option"
  ch_region :: string

text \<open>
  The \<^verbatim>\<open>Map\<close> \<^verbatim>\<open>allChannels\<close>: keys in insertion order; \<^verbatim>\<open>set\<close> on a key already
  present replaces the value and keeps the key's position.
\<close>

type_synonym channel_map = "(string option \<times> sports_channel) list"

fun map_get :: "channel_map \<Rightarrow> string option \<Rightarrow> sports_channel option" where
  "map_get [] k = None"
| "map_get ((k', v) # m) k = (if k' = k then Some v else map_get m k)"

definition map_has :: "channel_map \<Rightarrow> string option \<Rightarrow> bool" where
  "map_has m k = (map_get m k \<noteq> None)"

fun map_set :: "string option \<Rightarrow> sports_channel \<Rightarrow> channel_map \<Rightarrow> channel_map" where
  "map_set k v [] = [(k, v)]"
| "map_set k v ((k', v') # m) = (if k' = k then (k, v) # m else (k', v') # map_set k v m)"

text \<open>The object stored for a channel of a region (lines 116 to 123).\<close>

definition sportsEntry :: "string \<Rightarrow> channel_meta \<Rightarrow> stream \<Rightarrow> sports_channel" where
  "sportsEntry region m s =
     \<lparr>ch_tvgId = tvgId m, ch_logo = logo m, ch_genre = primaryGenre m,
      ch_name = js_str (name m) @ '' ('' @ toUpperCase region @ '')'',
      ch_url = url s, ch_region = region\<rparr>"

text \<open>The body of \<^verbatim>\<open>results.forEach\<close> in \<^verbatim>\<open>buildMultiRegionSportsM3U\<close>.\<close>

definition mergeChannel :: "string \<Rightarrow> channel_map \<Rightarrow> m3u_doc option \<Rightarrow> channel_map" where
  "mergeChannel region allChannels d =
     (case usable d of
        None \<Rightarrow> allChannels
      | Some (m, s) \<Rightarrow>
          if toLowerCase (primaryGenre m) \<noteq> ''sports'' then allChannels
          else if \<not> map_has allChannels (tvgId m) \<or> region = ''usa''
               then map_set (tvgId m) (sportsEntry region m s) allChannels
               else allChannels)"

text \<open>
  One iteration of \<^verbatim>\<open>for (const region of regions)\<close>.  A failed catalog request, a body
  that does not parse and a catalog without \<^verbatim>\<open>metas\<close> all leave the map as it is and go
  on with the next region.
\<close>

definition processRegion ::
  "upstream \<Rightarrow> string \<Rightarrow> channel_map \<times> event list \<Rightarrow> string \<Rightarrow> channel_map \<times> event list" where
  "processRegion up apikey acc region =
     (case acc of
        (allChannels, evs) \<Rightarrow>
          (case fetchJson (catalogReply up (catalogUrl apikey region)) of
             Inl err \<Rightarrow> (allChannels, evs @ [Fetch (catalogUrl apikey region)])
           | Inr catalogData \<Rightarrow>
               (case metas catalogData of
                  None \<Rightarrow> (allChannels, evs @ [Fetch (catalogUrl apikey region)])
                | Some channels \<Rightarrow>
                    (case fetchAll up apikey channels of
                       (results, evs') \<Rightarrow>
                         (foldl (mergeChannel region) allChannels results,
                          evs @ Fetch (catalogUrl apikey region) # evs')))))"

definition collectChannels :: "upstream \<Rightarrow> string \<Rightarrow> string list \<Rightarrow> channel_map \<times> event list" where
  "collectChannels up apikey regions = foldl (processRegion up apikey) ([], []) regions"

definition channelText :: "sports_channel \<Rightarrow> string" where
  "channelText c = entryText (ch_tvgId c) (ch_logo c) (ch_genre c) (ch_name c) (ch_url c)"

definition buildMultiRegionSportsM3U :: "upstream \<Rightarrow> string \<Rightarrow> string list \<Rightarrow> string \<times> event list" where
  "buildMultiRegionSportsM3U up apikey regions =
     (case collectChannels up apikey regions of
        (allChannels, evs) \<Rightarrow>
          (js_join newline (header # map (\<lambda>(k, c). channelText c) allChannels), evs))"

section \<open>Request handlers\<close>

record http_response =
  status :: nat
  body :: string

text \<open>
  The test \<^verbatim>\<open>!refresh && cache[cacheKey] && (now - cache[cacheKey].timestamp < CACHE_DURATION)\<close>
  of both handlers; when it holds, the entry that is served.
\<close>

definition freshHit :: "cache \<Rightarrow> string \<Rightarrow> int \<Rightarrow> string option \<Rightarrow> cache_entry option" where
  "freshHit cache cacheKey now refresh =
     (if truthy refresh then None
      else (case cache_get cache cacheKey of
              None \<Rightarrow> None
            | Some e \<Rightarrow> if now - timestamp e < CACHE_DURATION then Some e else None))"

text \<open>
  \<^verbatim>\<open>app.get("/playlist")\<close>.  The query parameters are strings or missing; \<open>now\<close> is
  \<^verbatim>\<open>Date.now()\<close> in the handler and \<open>ts\<close> the later one in \<^verbatim>\<open>fetchAndCache\<close>.  The
  handler returns the response, the cache it leaves and the requests it made.
\<close>

definition playlist ::
  "upstream \<Rightarrow> int \<Rightarrow> int \<Rightarrow> cache \<Rightarrow> string option \<Rightarrow> string option \<Rightarrow> string option
     \<Rightarrow> http_response \<times> cache \<times> event list" where
  "playlist up now ts cache apikey region refresh =
     (if \<not> truthy apikey \<or> \<not> truthy region \<or> \<not> js_includes validRegions region then
        (\<lparr>status = 400,
          body = ''Error: Missing or invalid parameters. Valid regions: ''
                 @ js_join '', '' validRegions\<rparr>, cache, [])
      else
        (let cacheKey = js_str apikey @ ''_'' @ js_str region in
         case freshHit cache cacheKey now refresh of
           Some e \<Rightarrow> (\<lparr>status = 200, body = m3u e\<rparr>, cache, [])
         | None \<Rightarrow>
             (case fetchAndCache up ts cache (js_str apikey) (js_str region) False of
                (cache', evs) \<Rightarrow>
                  (case cache_get cache' cacheKey of
                     Some e \<Rightarrow> (\<lparr>status = 200, body = m3u e\<rparr>, cache', evs)
                   | None \<Rightarrow>
                       (\<lparr>status = 500, body = ''Unable to generate playlist''\<rparr>, cache', evs)))))"

text \<open>
  \<^verbatim>\<open>app.get("/sports-playlist")\<close> from the cache key on (lines 182 to 201).  Nothing in
  \<^verbatim>\<open>buildMultiRegionSportsM3U\<close> throws past its own \<^verbatim>\<open>catch\<close>, so the handler's
  \<^verbatim>\<open>catch\<close> with status 500 has no path to it here.
\<close>

definition sportsServe ::
  "upstream \<Rightarrow> int \<Rightarrow> cache \<Rightarrow> string \<Rightarrow> string list \<Rightarrow> string option
     \<Rightarrow> http_response \<times> cache \<times> event list" where
  "sportsServe up now cache apikey regionList refresh =
     (let cacheKey = apikey @ ''_sports_'' @ js_join ''_'' regionList in
      case freshHit cache cacheKey now refresh of
        Some e \<Rightarrow> (\<lparr>status = 200, body = m3u e\<rparr>, cache, [])
      | None \<Rightarrow>
          (case buildMultiRegionSportsM3U up apikey regionList of
             (sportsM3u, evs) \<Rightarrow>
               (\<lparr>status = 200, body = sportsM3u\<rparr>,
                cache_put cacheKey \<lparr>m3u = sportsM3u, timestamp = now\<rparr> cache, evs)))"

definition sportsPlaylist ::
  "upstream \<Rightarrow> int \<Rightarrow> cache \<Rightarrow> string option \<Rightarrow> string option \<Rightarrow> string option
     \<Rightarrow> http_response \<times> cache \<times> event list" where
  "sportsPlaylist up now cache apikey regions refresh =
     (if \<not> truthy apikey then
        (\<lparr>status = 400, body = ''Error: Missing apikey parameter''\<rparr>, cache, [])
      else if truthy regions then
        (let regionList =
               filter (\<lambda>r. js_includes validRegions (Some r))
                 (map trim (js_split CHR '','' (js_str regions)))
         in if length regionList = 0 then
              (\<lparr>status = 400,
                body = ''Error: No valid regions provided. Valid regions: ''
                       @ js_join '', '' validRegions\<rparr>, cache, [])
            else sportsServe up now cache (js_str apikey) regionList refresh)
      else sportsServe up now cache (js_str apikey) [''usa''] refresh)"

section \<open>Daily refresh\<close>

text \<open>
  The callback of \<^verbatim>\<open>Object.keys(cache).forEach\<close>:
  \<^verbatim>\<open>const [apikey, region] = key.split("_"); fetchAndCache(apikey, region);\<close>
  A missing second token leaves \<^verbatim>\<open>region\<close> undefined; \<^verbatim>\<open>fetchAndCache\<close> only
  interpolates its arguments into strings.
\<close>

definition refreshKey :: "upstream \<Rightarrow> int \<Rightarrow> cache \<Rightarrow> string \<Rightarrow> cache \<times> event list" where
  "refreshKey up ts cache key =
     (let parts = js_split CHR ''_'' key;
          apikey = (case parts of [] \<Rightarrow> None | a # rest \<Rightarrow> Some a);
          region = (case parts of a # r # rest \<Rightarrow> Some r | _ \<Rightarrow> None)
      in fetchAndCache up ts cache (js_str apikey) (js_str region) False)"

text \<open>
  One refresh pass.  The keys are those present when the pass starts; the calls are not
  awaited in the program, and are run here one after the other in key order, \<open>tsOf key\<close>
  being the time at which the rebuild started for \<open>key\<close> stores its entry.
\<close>

definition refreshPass :: "upstream \<Rightarrow> (string \<Rightarrow> int) \<Rightarrow> cache \<Rightarrow> cache \<times> event list" where
  "refreshPass up tsOf cache =
     foldl (\<lambda>acc key.
              case acc of
                (c, evs) \<Rightarrow>
                  (case refreshKey up (tsOf key) c key of (c', evs') \<Rightarrow> (c', evs @ evs')))
       (cache, []) (map fst cache)"

section \<open>Statement vocabulary and example inputs\<close>

text \<open>
  The lines a channel document contributes to a playlist: its metadata line and its
  stream URL when it passes the guard, nothing otherwise.
\<close>

definition entryLines :: "m3u_doc option \<Rightarrow> string list" where
  "entryLines d =
     (case usable d of
        None \<Rightarrow> []
      | Some (m, s) \<Rightarrow>
          [extinfLine (tvgId m) (logo m) (primaryGenre m) (js_str (name m)), js_str (url s)])"

text \<open>The same as pairs, before they are laid out as lines.\<close>

definition docPair :: "m3u_doc option \<Rightarrow> (string \<times> string) list" where
  "docPair d =
     (case usable d of
        None \<Rightarrow> []
      | Some (m, s) \<Rightarrow>
          [(extinfLine (tvgId m) (logo m) (primaryGenre m) (js_str (name m)), js_str (url s))])"

text \<open>An upstream that answers no request.\<close>

definition upDown :: upstream where
  "upDown = \<lparr>catalogReply = (\<lambda>u. None), metaReply = (\<lambda>u n. None)\<rparr>"

text \<open>
  The scenario of a two-channel catalog: \<^verbatim>\<open>c1\<close> resolves on the first attempt, every
  attempt for \<^verbatim>\<open>c2\<close> fails.
\<close>

definition news1 :: m3u_doc where
  "news1 = \<lparr>meta = Some \<lparr>tvgId = None, logo = None, genres = Some [''News''],
      name = Some ''News1'', streams = Some [Some \<lparr>url = Some ''http://x/1''\<rparr>]\<rparr>\<rparr>"

definition upScenario :: upstream where
  "upScenario =
     \<lparr>catalogReply = (\<lambda>u. Some \<lparr>ok = True, json = Some \<lparr>metas = Some [\<lparr>id' = ''c1''\<rparr>, \<lparr>id' = ''c2''\<rparr>]\<rparr>\<rparr>),
      metaReply = (\<lambda>u n. if u = metaUrl ''k'' ''c1'' then Some \<lparr>ok = True, json = Some (Some news1)\<rparr> else None)\<rparr>"

text \<open>
  The channel list of a region's catalog, when the catalog request is answered with a
  successful status and a body that parses to a catalog with a \<^verbatim>\<open>metas\<close> list; \<open>None\<close>
  when the request, the status check, the parsing or the access to \<^verbatim>\<open>metas\<close> fails.
\<close>

definition catalogOf :: "upstream \<Rightarrow> string \<Rightarrow> string \<Rightarrow> channel_stub list option" where
  "catalogOf up apikey region =
     (case fetchJson (catalogReply up (catalogUrl apikey region)) of
        Inl err \<Rightarrow> None
      | Inr catalogData \<Rightarrow> metas catalogData)"

text \<open>The text \<^verbatim>\<open>buildM3U\<close> renders, without the sports filter, for a channel list.\<close>

definition playlistText :: "upstream \<Rightarrow> string \<Rightarrow> channel_stub list \<Rightarrow> string" where
  "playlistText up apikey channels =
     js_join newline (m3uEntriesOf False (fst (fetchAll up apikey channels)))"

text \<open>An upstream whose catalog lists two channels and whose channel requests all fail.\<close>

definition upCatalogOnly :: upstream where
  "upCatalogOnly =
     \<lparr>catalogReply =
        (\<lambda>u. Some \<lparr>ok = True, json = Some \<lparr>metas = Some [\<lparr>id' = ''c1''\<rparr>, \<lparr>id' = ''c2''\<rparr>]\<rparr>\<rparr>),
      metaReply = (\<lambda>u n. None)\<rparr>"

text \<open>
  A document that reaches the deduplication step of the multi-region builder: it passes
  the guard and its primary genre lowers to \<^verbatim>\<open>sports\<close> (lines 106 to 109).
\<close>

definition sportsDoc :: "m3u_doc option \<Rightarrow> (channel_meta \<times> stream) option" where
  "sportsDoc d =
     (case usable d of
        None \<Rightarrow> None
      | Some (m, s) \<Rightarrow> if toLowerCase (primaryGenre m) \<noteq> ''sports'' then None else Some (m, s))"

text \<open>The documents fetched for a region; none when its catalog fails.\<close>

definition regionDocs :: "upstream \<Rightarrow> string \<Rightarrow> string \<Rightarrow> m3u_doc option list" where
  "regionDocs up apikey region =
     (case catalogOf up apikey region of
        None \<Rightarrow> []
      | Some channels \<Rightarrow> fst (fetchAll up apikey channels))"

definition sportsDocs :: "upstream \<Rightarrow> string \<Rightarrow> string \<Rightarrow> (channel_meta \<times> stream) list" where
  "sportsDocs up apikey region = List.map_filter sportsDoc (regionDocs up apikey region)"

text \<open>
  The occurrences of sports channels in the order the builder meets them: region by
  region in the order of the list, and within a region in catalog order.
\<close>

definition occurrences ::
  "upstream \<Rightarrow> string \<Rightarrow> string list \<Rightarrow> (string \<times> channel_meta \<times> stream) list" where
  "occurrences up apikey regions =
     concat (map (\<lambda>region. map (\<lambda>(m, s). (region, m, s)) (sportsDocs up apikey region)) regions)"

text \<open>The test and update of lines 115 to 124 for one occurrence.\<close>

definition dedupStep :: "channel_map \<Rightarrow> string \<times> channel_meta \<times> stream \<Rightarrow> channel_map" where
  "dedupStep allChannels occ =
     (case occ of
        (region, m, s) \<Rightarrow>
          if \<not> map_has allChannels (tvgId m) \<or> region = ''usa''
          then map_set (tvgId m) (sportsEntry region m s) allChannels
          else allChannels)"

text \<open>
  Two regions that both list the channel \<^verbatim>\<open>espn\<close>; the catalog of \<^verbatim>\<open>usa\<close> also lists
  a news channel.
\<close>

definition espnUS :: m3u_doc where
  "espnUS = \<lparr>meta = Some \<lparr>tvgId = Some ''espn'', logo = Some ''l1'', genres = Some [''Sports''],
      name = Some ''ESPN'', streams = Some [Some \<lparr>url = Some ''http://us/1''\<rparr>]\<rparr>\<rparr>"

definition espnUK :: m3u_doc where
  "espnUK = \<lparr>meta = Some \<lparr>tvgId = Some ''espn'', logo = Some ''l2'', genres = Some [''sports''],
      name = Some ''ESPN UK'', streams = Some [Some \<lparr>url = Some ''http://uk/1''\<rparr>]\<rparr>\<rparr>"

definition upRegions :: upstream where
  "upRegions =
     \<lparr>catalogReply =
        (\<lambda>u. if u = catalogUrl ''k'' ''usa''
             then Some \<lparr>ok = True, json = Some \<lparr>metas = Some [\<lparr>id' = ''us1''\<rparr>, \<lparr>id' = ''c1''\<rparr>]\<rparr>\<rparr>
             else if u = catalogUrl ''k'' ''uk''
             then Some \<lparr>ok = True, json = Some \<lparr>metas = Some [\<lparr>id' = ''gb1''\<rparr>]\<rparr>\<rparr>
             else None),
      metaReply =
        (\<lambda>u n. if u = metaUrl ''k'' ''us1'' then Some \<lparr>ok = True, json = Some (Some espnUS)\<rparr>
               else if u = metaUrl ''k'' ''gb1'' then Some \<lparr>ok = True, json = Some (Some espnUK)\<rparr>
               else if u = metaUrl ''k'' ''c1'' then Some \<lparr>ok = True, json = Some (Some news1)\<rparr>
               else None)\<rparr>"

text \<open>The region list the sports handler keeps from a \<^verbatim>\<open>regions\<close> parameter (line 173).\<close>

definition keptRegions :: "string \<Rightarrow> string list" where
  "keptRegions regions =
     filter (\<lambda>r. js_includes validRegions (Some r)) (map trim (js_split CHR '','' regions))"

text \<open>An upstream that answers every catalog request with an empty catalog.\<close>

definition upEmptyCatalogs :: upstream where
  "upEmptyCatalogs =
     \<lparr>catalogReply = (\<lambda>u. Some \<lparr>ok = True, json = Some \<lparr>metas = Some []\<rparr>\<rparr>),
      metaReply = (\<lambda>u n. None)\<rparr>"

section \<open>Properties\<close>

subsection \<open>The retry loop\<close>

lemma retry_loop_unrolled:
  "getChannelM3u up cid key 3 =
     (let u = metaUrl key cid; f = (\<lambda>n. fetchJson (metaReply up u n)) in
      case f 1 of
        Inr v \<Rightarrow> (v, [Fetch u])
      | Inl e1 \<Rightarrow>
          (case f 2 of
             Inr v \<Rightarrow> (v, [Fetch u, Delay 500, Fetch u])
           | Inl e2 \<Rightarrow>
               (case f 3 of
                  Inr v \<Rightarrow> (v, [Fetch u, Delay 500, Fetch u, Delay 1000, Fetch u])
                | Inl e3 \<Rightarrow> (None, [Fetch u, Delay 500, Fetch u, Delay 1000, Fetch u]))))"
proof -
  have s: "(1::nat) + 1 = 2" "(2::nat) + 1 = 3" "(3::nat) + 1 = 4" by simp_all
  show ?thesis
    unfolding getChannelM3u_def Let_def
    apply (subst getChannelM3u_from.simps)
    apply (subst getChannelM3u_from.simps)
    apply (subst getChannelM3u_from.simps)
    apply (subst getChannelM3u_from.simps)
    apply (simp only: s)
    apply (simp split: sum.splits)
    done
qed

lemma fetch_count_from:
  "length (filter isFetch (snd (getChannelM3u_from up cid key retries attempt))) \<le> retries + 1 - attempt"
proof (induction up cid key retries attempt rule: getChannelM3u_from.induct)
  case (1 up channelId apikey retries attempt)
  show ?case
  proof (cases "attempt \<le> retries")
    case False
    then show ?thesis by (subst getChannelM3u_from.simps) simp
  next
    case True
    show ?thesis
    proof (cases "fetchJson (metaReply up (metaUrl apikey channelId) attempt)")
      case (Inr v)
      with True show ?thesis
        by (subst getChannelM3u_from.simps) (simp add: isFetch_def)
    next
      case (Inl err)
      obtain r evs where
        rec: "getChannelM3u_from up channelId apikey retries (attempt + 1) = (r, evs)"
        by (cases "getChannelM3u_from up channelId apikey retries (attempt + 1)")
      from "1.IH"[OF True Inl] rec
      have "length (filter isFetch evs) \<le> retries + 1 - (attempt + 1)"
        by simp
      with True have "Suc (length (filter isFetch evs)) \<le> retries + 1 - attempt"
        by simp
      then show ?thesis
        apply (subst getChannelM3u_from.simps)
        apply (simp only: True Inl rec if_True sum.case prod.case snd_conv)
        apply (simp add: isFetch_def)
        done
    qed
  qed
qed

lemma exhausted_from:
  "\<forall>n. attempt \<le> n \<and> n \<le> retries \<longrightarrow> isl (fetchJson (metaReply up (metaUrl key cid) n)) \<Longrightarrow>
   getChannelM3u_from up cid key retries attempt =
     (None, concat (map (\<lambda>n. Fetch (metaUrl key cid) # (if n < retries then [Delay (500 * n)] else []))
                     [attempt ..< retries + 1]))"
proof (induction up cid key retries attempt rule: getChannelM3u_from.induct)
  case (1 up channelId apikey retries attempt)
  show ?case
  proof (cases "attempt \<le> retries")
    case False
    then show ?thesis by (subst getChannelM3u_from.simps) simp
  next
    case True
    with "1.prems" obtain err where
      e: "fetchJson (metaReply up (metaUrl apikey channelId) attempt) = Inl err"
      by (metis isl_def le_refl)
    from "1.prems" have
      "\<forall>n. attempt + 1 \<le> n \<and> n \<le> retries \<longrightarrow> isl (fetchJson (metaReply up (metaUrl apikey channelId) n))"
      by simp
    from "1.IH"[OF True e this]
    have ih: "getChannelM3u_from up channelId apikey retries (attempt + 1) =
       (None, concat (map (\<lambda>n. Fetch (metaUrl apikey channelId) # (if n < retries then [Delay (500 * n)] else []))
                     [attempt + 1 ..< retries + 1]))" .
    from True have u: "[attempt ..< retries + 1] = attempt # [attempt + 1 ..< retries + 1]"
      by (simp add: upt_conv_Cons)
    show ?thesis
      apply (subst getChannelM3u_from.simps)
      apply (simp only: ih u e)
      apply (simp add: True)
      done
  qed
qed

text \<open>
  Claim C3.  With \<open>retries = 3\<close>, \<^verbatim>\<open>getChannelM3u\<close> requests the channel URL at most
  three times; after the failed attempt \<open>n\<close>, for \<open>n = 1\<close> and \<open>n = 2\<close>, it waits
  \<open>500 * n\<close> milliseconds before the next attempt; it does not wait after the third;
  and when all three attempts fail it returns \<^verbatim>\<open>null\<close>.
\<close>

theorem getChannelM3u_three_attempts:
  "getChannelM3u up cid key 3 =
     (let u = metaUrl key cid; f = (\<lambda>n. fetchJson (metaReply up u n)) in
      case f 1 of
        Inr v \<Rightarrow> (v, [Fetch u])
      | Inl e1 \<Rightarrow>
          (case f 2 of
             Inr v \<Rightarrow> (v, [Fetch u, Delay (500 * 1), Fetch u])
           | Inl e2 \<Rightarrow>
               (case f 3 of
                  Inr v \<Rightarrow> (v, [Fetch u, Delay (500 * 1), Fetch u, Delay (500 * 2), Fetch u])
                | Inl e3 \<Rightarrow>
                    (None, [Fetch u, Delay (500 * 1), Fetch u, Delay (500 * 2), Fetch u]))))
   \<and> length (filter isFetch (snd (getChannelM3u up cid key 3))) \<le> 3"
proof
  show "length (filter isFetch (snd (getChannelM3u up cid key 3))) \<le> 3"
    using fetch_count_from[of up cid key 3 1] by (simp add: getChannelM3u_def)
next
  show "getChannelM3u up cid key 3 =
     (let u = metaUrl key cid; f = (\<lambda>n. fetchJson (metaReply up u n)) in
      case f 1 of
        Inr v \<Rightarrow> (v, [Fetch u])
      | Inl e1 \<Rightarrow>
          (case f 2 of
             Inr v \<Rightarrow> (v, [Fetch u, Delay (500 * 1), Fetch u])
           | Inl e2 \<Rightarrow>
               (case f 3 of
                  Inr v \<Rightarrow> (v, [Fetch u, Delay (500 * 1), Fetch u, Delay (500 * 2), Fetch u])
                | Inl e3 \<Rightarrow>
                    (None, [Fetch u, Delay (500 * 1), Fetch u, Delay (500 * 2), Fetch u]))))"
    by (simp add: retry_loop_unrolled Let_def split: sum.splits)
qed

theorem getChannelM3u_three_attempts_witness:
  "getChannelM3u upDown ''c2'' ''k'' 3 =
     (None, [Fetch ''https://tv-addon.debridio.com/k/meta/tv/c2'', Delay 500,
             Fetch ''https://tv-addon.debridio.com/k/meta/tv/c2'', Delay 1000,
             Fetch ''https://tv-addon.debridio.com/k/meta/tv/c2''])"
  using getChannelM3u_three_attempts[of upDown "''c2''" "''k''"]
  by (simp add: upDown_def fetchJson_def metaUrl_def baseUrl_def Let_def)

subsection \<open>The playlist text\<close>

lemma join_pairs:
  "js_join sep (x # map (\<lambda>(a, b). a @ sep @ b) ps) = js_join sep (x # concat (map (\<lambda>(a, b). [a, b]) ps))"
proof (induction ps arbitrary: x)
  case Nil
  show ?case by simp
next
  case (Cons p ps)
  obtain a b where p: "p = (a, b)" by (cases p)
  have "js_join sep (x # map (\<lambda>(a, b). a @ sep @ b) (p # ps))
        = x @ sep @ js_join sep ((a @ sep @ b) # map (\<lambda>(a, b). a @ sep @ b) ps)"
    by (simp add: p)
  also have "js_join sep ((a @ sep @ b) # map (\<lambda>(a, b). a @ sep @ b) ps)
        = a @ sep @ js_join sep (b # map (\<lambda>(a, b). a @ sep @ b) ps)"
    by (cases ps) auto
  also have "js_join sep (b # map (\<lambda>(a, b). a @ sep @ b) ps)
        = js_join sep (b # concat (map (\<lambda>(a, b). [a, b]) ps))"
    by (rule Cons.IH)
  finally show ?case by (simp add: p)
qed

lemma pushEntry_append: "pushEntry f acc d = acc @ pushEntry f [] d"
  by (auto simp: pushEntry_def Let_def split: option.splits prod.splits)

lemma foldl_pushEntry: "foldl (pushEntry f) acc ds = acc @ concat (map (pushEntry f []) ds)"
proof (induction ds arbitrary: acc)
  case Nil
  show ?case by simp
next
  case (Cons d ds)
  have "foldl (pushEntry f) acc (d # ds) = pushEntry f acc d @ concat (map (pushEntry f []) ds)"
    using Cons.IH[of "pushEntry f acc d"] by simp
  also have "pushEntry f acc d = acc @ pushEntry f [] d"
    by (rule pushEntry_append)
  finally show ?case by simp
qed
lemma pushEntry_plain: "pushEntry False [] d = map (\<lambda>(a, b). a @ newline @ b) (docPair d)"
  by (simp add: pushEntry_def docPair_def entryText_def Let_def split: option.splits prod.splits)

lemma entryLines_docPair: "entryLines d = concat (map (\<lambda>(a, b). [a, b]) (docPair d))"
  by (simp add: entryLines_def docPair_def split: option.splits prod.splits)

lemma m3uEntriesOf_plain:
  "m3uEntriesOf False results = header # map (\<lambda>(a, b). a @ newline @ b) (concat (map docPair results))"
proof -
  have "pushEntry False [] = (\<lambda>d. map (\<lambda>(a, b). a @ newline @ b) (docPair d))"
    by (rule ext) (rule pushEntry_plain)
  then show ?thesis
    by (simp add: m3uEntriesOf_def foldl_pushEntry map_concat comp_def)
qed

lemma join_m3uEntriesOf_plain:
  "js_join newline (m3uEntriesOf False results) = js_join newline (header # concat (map entryLines results))"
proof -
  have "concat (map (\<lambda>(a, b). [a, b]) (concat (map docPair results))) = concat (map entryLines results)"
    by (induction results) (simp_all add: entryLines_docPair)
  then show ?thesis
    by (simp add: m3uEntriesOf_plain join_pairs)
qed

lemma fst_fetchAll: "fst (fetchAll up apikey channels) = map (\<lambda>ch. fst (getChannelM3u up (id' ch) apikey 3)) channels"
  by (simp add: fetchAll_def Let_def comp_def)

text \<open>
  Claim C4.  For a catalog with a channel list, \<^verbatim>\<open>buildM3U\<close> without the sports filter
  returns the header line followed, in catalog order, by the metadata line and the
  stream URL line of every channel whose document was fetched and passes the guard;
  a channel whose fetch gave \<^verbatim>\<open>null\<close>, or whose document has no metadata, no stream
  list or no first stream entry, contributes no line.  The witness is the scenario of
  the catalog \<^verbatim>\<open>c1\<close>, \<^verbatim>\<open>c2\<close>.
\<close>

theorem buildM3U_line_pairs:
  assumes "metas catalogData = Some channels"
  shows "fst (buildM3U up catalogData apikey False) =
           Inr (js_join newline
                  (header # concat (map (\<lambda>ch. entryLines (fst (getChannelM3u up (id' ch) apikey 3)))
                                     channels)))"
proof -
  have "fst (buildM3U up catalogData apikey False) =
          Inr (js_join newline (m3uEntriesOf False (fst (fetchAll up apikey channels))))"
    using assms by (simp add: buildM3U_def split: prod.splits)
  then show ?thesis
    by (simp add: join_m3uEntriesOf_plain fst_fetchAll comp_def)
qed

theorem buildM3U_line_pairs_witness:
  "fst (buildM3U upScenario \<lparr>metas = Some [\<lparr>id' = ''c1''\<rparr>, \<lparr>id' = ''c2''\<rparr>]\<rparr> ''k'' False) =
     Inr (js_join newline
            [''#EXTM3U'',
             ''#EXTINF:-1 tvg-id='' @ dquote @ ''undefined'' @ dquote @ '' tvg-logo='' @ dquote
               @ ''undefined'' @ dquote @ '' group-title='' @ dquote @ ''News'' @ dquote @ '',News1'',
             ''http://x/1''])"
proof -
  have c1: "fst (getChannelM3u upScenario ''c1'' ''k'' 3) = Some news1"
    by (simp add: retry_loop_unrolled upScenario_def fetchJson_def Let_def)
  have c2: "fst (getChannelM3u upScenario ''c2'' ''k'' 3) = None"
    by (simp add: retry_loop_unrolled upScenario_def fetchJson_def Let_def metaUrl_def)
  have m: "metas \<lparr>metas = Some [\<lparr>id' = ''c1''\<rparr>, \<lparr>id' = ''c2''\<rparr>]\<rparr> = Some [\<lparr>id' = ''c1''\<rparr>, \<lparr>id' = ''c2''\<rparr>]"
    by simp
  show ?thesis
    using buildM3U_line_pairs[OF m, of upScenario "''k''"]
    by (simp add: c1 c2 entryLines_def usable_def news1_def extinfLine_def primaryGenre_def
          js_str_def header_def)
qed

subsection \<open>The cache and fetchAndCache\<close>

lemma cache_get_put: "cache_get (cache_put k e c) k' = (if k' = k then Some e else cache_get c k')"
  by (induction c) auto

lemma buildM3U_lines:
  "metas catalogData = Some channels \<Longrightarrow>
   buildM3U up catalogData apikey False =
     (Inr (js_join newline
             (header # concat (map (\<lambda>ch. entryLines (fst (getChannelM3u up (id' ch) apikey 3)))
                                channels))),
      snd (fetchAll up apikey channels))"
  by (simp add: buildM3U_def case_prod_beta join_m3uEntriesOf_plain fst_fetchAll comp_def)

lemma fetchAndCache_failed:
  "catalogOf up apikey region = None \<Longrightarrow>
   fetchAndCache up ts cache apikey region sportsOnly = (cache, [Fetch (catalogUrl apikey region)])"
  by (auto simp: catalogOf_def fetchAndCache_def buildM3U_def split: sum.splits)

lemma fetchAndCache_built:
  "catalogOf up apikey region = Some channels \<Longrightarrow>
   fetchAndCache up ts cache apikey region False =
     (cache_put (apikey @ ''_'' @ region)
        \<lparr>m3u = js_join newline
                 (header # concat (map (\<lambda>ch. entryLines (fst (getChannelM3u up (id' ch) apikey 3)))
                                    channels)),
         timestamp = ts\<rparr> cache,
      Fetch (catalogUrl apikey region) # snd (fetchAll up apikey channels))"
  by (auto simp: catalogOf_def fetchAndCache_def buildM3U_lines split: sum.splits)

text \<open>
  On the path of \<^verbatim>\<open>fetchAndCache\<close>, which the \<^verbatim>\<open>/playlist\<close> handler and the refresh pass
  take, a failed catalog request leaves the cache exactly as it was.
\<close>

lemma fetchAndCache_keeps_cache:
  assumes "catalogOf up apikey region = None"
  shows "fst (fetchAndCache up ts cache apikey region sportsOnly) = cache
         \<and> cache_get (fst (fetchAndCache up ts cache apikey region sportsOnly)) k = cache_get cache k"
  using assms by (simp add: fetchAndCache_failed)

subsection \<open>The /playlist handler\<close>

lemma valid_region_truthy: "js_includes validRegions region \<Longrightarrow> truthy region"
  by (auto simp: js_includes_def validRegions_def truthy_def split: option.splits)

lemma valid_regions_text:
  "js_join '', '' validRegions = ''usa, ca, mx, uk, au, cl, fr, it, za, nz, ee''"
  by (simp add: validRegions_def)

text \<open>
  Claim C6.  On a request with an API key and a valid region and no \<^verbatim>\<open>refresh\<close>
  parameter (absent, or empty), when the cache holds an entry for the key of the request
  that is younger than 24 hours, the handler answers with that entry's text, leaves the
  cache as it is and makes no upstream request.  The answer does not depend on the
  upstream or on the time beyond the freshness test, so repeated such requests get the
  same text.
\<close>

theorem playlist_fresh_hit:
  assumes "truthy apikey" and "js_includes validRegions region" and "\<not> truthy refresh"
    and "cache_get cache (js_str apikey @ ''_'' @ js_str region) = Some e"
    and "now - timestamp e < CACHE_DURATION"
  shows "playlist up now ts cache apikey region refresh = (\<lparr>status = 200, body = m3u e\<rparr>, cache, [])"
  using assms valid_region_truthy[of region]
  by (simp add: playlist_def freshHit_def)

theorem playlist_fresh_hit_witness:
  "playlist upScenario 86400999 86401000 [(''k_usa'', \<lparr>m3u = ''#EXTM3U'', timestamp = 1000\<rparr>)]
     (Some ''k'') (Some ''usa'') None
   = (\<lparr>status = 200, body = ''#EXTM3U''\<rparr>, [(''k_usa'', \<lparr>m3u = ''#EXTM3U'', timestamp = 1000\<rparr>)], [])"
proof -
  have a: "truthy (Some ''k'')" by (simp add: truthy_def)
  have r: "js_includes validRegions (Some ''usa'')" by (simp add: js_includes_def validRegions_def)
  have f: "\<not> truthy None" by (simp add: truthy_def)
  have g: "cache_get [(''k_usa'', \<lparr>m3u = ''#EXTM3U'', timestamp = 1000\<rparr>)]
             (js_str (Some ''k'') @ ''_'' @ js_str (Some ''usa''))
           = Some \<lparr>m3u = ''#EXTM3U'', timestamp = 1000\<rparr>"
    by (simp add: js_str_def)
  have t: "86400999 - timestamp \<lparr>m3u = ''#EXTM3U'', timestamp = 1000\<rparr> < CACHE_DURATION"
    by (simp add: CACHE_DURATION_def)
  from playlist_fresh_hit[OF a r f g t, of upScenario 86401000]
  show ?thesis by simp
qed

text \<open>
  Claim C7.  A request to \<^verbatim>\<open>/playlist\<close> whose API key is absent (or empty), or whose
  region is absent or not one of the valid regions, is answered with status 400 and a
  message that lists the valid regions; the cache is unchanged and no upstream request
  is made.
\<close>

theorem playlist_invalid_request:
  assumes "\<not> truthy apikey \<or> \<not> js_includes validRegions region"
  shows "playlist up now ts cache apikey region refresh =
           (\<lparr>status = 400,
             body = ''Error: Missing or invalid parameters. Valid regions: ''
                    @ ''usa, ca, mx, uk, au, cl, fr, it, za, nz, ee''\<rparr>, cache, [])"
  using assms by (auto simp: playlist_def valid_regions_text)

theorem playlist_invalid_request_witness:
  "playlist upScenario 5 6 [(''k_usa'', \<lparr>m3u = ''#EXTM3U'', timestamp = 1\<rparr>)]
     (Some ''k'') (Some ''sports'') None
   = (\<lparr>status = 400,
       body = ''Error: Missing or invalid parameters. Valid regions: usa, ca, mx, uk, au, cl, fr, it, za, nz, ee''\<rparr>,
      [(''k_usa'', \<lparr>m3u = ''#EXTM3U'', timestamp = 1\<rparr>)], [])"
proof -
  have "\<not> truthy (Some ''k'') \<or> \<not> js_includes validRegions (Some ''sports'')"
    by (simp add: js_includes_def validRegions_def)
  from playlist_invalid_request[OF this, of upScenario 5 6]
  show ?thesis by simp
qed

lemma playlistText_lines:
  "playlistText up apikey channels =
     js_join newline
       (header # concat (map (\<lambda>ch. entryLines (fst (getChannelM3u up (id' ch) apikey 3))) channels))"
  by (simp add: playlistText_def join_m3uEntriesOf_plain fst_fetchAll comp_def)

lemma playlistText_none_usable:
  assumes "\<forall>ch \<in> set channels. usable (fst (getChannelM3u up (id' ch) apikey 3)) = None"
  shows "playlistText up apikey channels = ''#EXTM3U''"
proof -
  have e: "concat (map (\<lambda>ch. entryLines (fst (getChannelM3u up (id' ch) apikey 3))) channels) = []"
    using assms by (induction channels) (simp_all add: entryLines_def)
  show ?thesis
    unfolding playlistText_lines e by (simp add: header_def)
qed

lemma playlist_rebuild:
  assumes "truthy apikey" and "js_includes validRegions region"
    and "freshHit cache (js_str apikey @ ''_'' @ js_str region) now refresh = None"
    and "catalogOf up (js_str apikey) (js_str region) = Some channels"
  shows "playlist up now ts cache apikey region refresh =
          (\<lparr>status = 200, body = playlistText up (js_str apikey) channels\<rparr>,
           cache_put (js_str apikey @ ''_'' @ js_str region)
             \<lparr>m3u = playlistText up (js_str apikey) channels, timestamp = ts\<rparr> cache,
           Fetch (catalogUrl (js_str apikey) (js_str region))
             # snd (fetchAll up (js_str apikey) channels))"
  using assms valid_region_truthy[of region]
  by (simp add: playlist_def fetchAndCache_built cache_get_put playlistText_lines)

lemma playlist_failed:
  assumes "truthy apikey" and "js_includes validRegions region"
    and "freshHit cache (js_str apikey @ ''_'' @ js_str region) now refresh = None"
    and "catalogOf up (js_str apikey) (js_str region) = None"
  shows "playlist up now ts cache apikey region refresh =
          (case cache_get cache (js_str apikey @ ''_'' @ js_str region) of
             Some e \<Rightarrow> \<lparr>status = 200, body = m3u e\<rparr>
           | None \<Rightarrow> \<lparr>status = 500, body = ''Unable to generate playlist''\<rparr>,
           cache, [Fetch (catalogUrl (js_str apikey) (js_str region))])"
  using assms valid_region_truthy[of region]
  by (simp add: playlist_def fetchAndCache_failed split: option.splits)

lemma playlist_hit:
  assumes "truthy apikey" and "js_includes validRegions region"
    and "freshHit cache (js_str apikey @ ''_'' @ js_str region) now refresh = Some e"
  shows "playlist up now ts cache apikey region refresh = (\<lparr>status = 200, body = m3u e\<rparr>, cache, [])"
  using assms valid_region_truthy[of region]
  by (simp add: playlist_def)

lemma freshHit_Some_get:
  "freshHit cache key now refresh = Some e \<Longrightarrow> cache_get cache key = Some e"
  by (auto simp: freshHit_def split: if_splits option.splits)

text \<open>
  Claim C10.  On a request to \<^verbatim>\<open>/playlist\<close> with an API key and a valid region: if the
  catalog request for the key and region succeeds and gives a catalog, the answer has
  status 200, and when the handler rebuilds (no fresh entry is served) the build stores
  the playlist under the key of the request and the handler returns it; if moreover no
  channel's document is usable (every fetch exhausted its attempts or gave an incomplete
  document) the text is exactly the header line.  The status is 500 exactly when the
  catalog request failed and the cache held no entry for the key.
\<close>

theorem playlist_status:
  assumes "truthy apikey" and "js_includes validRegions region"
  shows
    "(\<forall>channels. catalogOf up (js_str apikey) (js_str region) = Some channels \<longrightarrow>
        status (fst (playlist up now ts cache apikey region refresh)) = 200 \<and>
        (freshHit cache (js_str apikey @ ''_'' @ js_str region) now refresh = None \<longrightarrow>
           body (fst (playlist up now ts cache apikey region refresh))
             = playlistText up (js_str apikey) channels \<and>
           cache_get (fst (snd (playlist up now ts cache apikey region refresh)))
               (js_str apikey @ ''_'' @ js_str region)
             = Some \<lparr>m3u = playlistText up (js_str apikey) channels, timestamp = ts\<rparr> \<and>
           ((\<forall>ch \<in> set channels. usable (fst (getChannelM3u up (id' ch) (js_str apikey) 3)) = None) \<longrightarrow>
              body (fst (playlist up now ts cache apikey region refresh)) = ''#EXTM3U'')))
     \<and> (status (fst (playlist up now ts cache apikey region refresh)) = 500 \<longleftrightarrow>
          catalogOf up (js_str apikey) (js_str region) = None
          \<and> cache_get cache (js_str apikey @ ''_'' @ js_str region) = None)"
proof (cases "freshHit cache (js_str apikey @ ''_'' @ js_str region) now refresh")
  case (Some e)
  from playlist_hit[OF assms Some] freshHit_Some_get[OF Some] Some
  show ?thesis by simp
next
  case None
  show ?thesis
  proof (cases "catalogOf up (js_str apikey) (js_str region)")
    case (Some channels)
    from playlist_rebuild[OF assms None Some] Some None
    show ?thesis
      by (simp add: cache_get_put playlistText_none_usable)
  next
    case cn: None
    from playlist_failed[OF assms None cn] cn None
    show ?thesis
      by (simp split: option.splits)
  qed
qed

theorem playlist_status_witness:
  "status (fst (playlist upScenario 10 11 [] (Some ''k'') (Some ''usa'') None)) = 200
   \<and> playlist upCatalogOnly 10 11 [] (Some ''k'') (Some ''usa'') None
       = (\<lparr>status = 200, body = ''#EXTM3U''\<rparr>,
          [(''k_usa'', \<lparr>m3u = ''#EXTM3U'', timestamp = 11\<rparr>)],
          snd (snd (playlist upCatalogOnly 10 11 [] (Some ''k'') (Some ''usa'') None)))
   \<and> status (fst (playlist upDown 10 11 [] (Some ''k'') (Some ''usa'') None)) = 500"
proof -
  have a: "truthy (Some ''k'')" by (simp add: truthy_def)
  have r: "js_includes validRegions (Some ''usa'')" by (simp add: js_includes_def validRegions_def)
  have c: "catalogOf upScenario (js_str (Some ''k'')) (js_str (Some ''usa''))
             = Some [\<lparr>id' = ''c1''\<rparr>, \<lparr>id' = ''c2''\<rparr>]"
    by (simp add: catalogOf_def upScenario_def fetchJson_def)
  have c': "catalogOf upCatalogOnly (js_str (Some ''k'')) (js_str (Some ''usa''))
             = Some [\<lparr>id' = ''c1''\<rparr>, \<lparr>id' = ''c2''\<rparr>]"
    by (simp add: catalogOf_def upCatalogOnly_def fetchJson_def)
  have d: "catalogOf upDown (js_str (Some ''k'')) (js_str (Some ''usa'')) = None"
    by (simp add: catalogOf_def upDown_def fetchJson_def)
  have g: "cache_get [] (js_str (Some ''k'') @ ''_'' @ js_str (Some ''usa'')) = None"
    by simp
  have h: "freshHit [] (js_str (Some ''k'') @ ''_'' @ js_str (Some ''usa'')) 10 None = None"
    by (simp add: freshHit_def truthy_def)
  have u: "\<forall>ch \<in> set [\<lparr>id' = ''c1''\<rparr>, \<lparr>id' = ''c2''\<rparr>].
             usable (fst (getChannelM3u upCatalogOnly (id' ch) (js_str (Some ''k'')) 3)) = None"
    by (simp add: retry_loop_unrolled upCatalogOnly_def fetchJson_def Let_def usable_def)
  from playlist_status[OF a r, of upScenario 10 11 "[]" None] c
  have 1: "status (fst (playlist upScenario 10 11 [] (Some ''k'') (Some ''usa'') None)) = 200"
    by blast
  from playlist_status[OF a r, of upCatalogOnly 10 11 "[]" None] c' h u
  have "status (fst (playlist upCatalogOnly 10 11 [] (Some ''k'') (Some ''usa'') None)) = 200
        \<and> body (fst (playlist upCatalogOnly 10 11 [] (Some ''k'') (Some ''usa'') None)) = ''#EXTM3U''"
    by blast
  then have 2: "fst (playlist upCatalogOnly 10 11 [] (Some ''k'') (Some ''usa'') None)
                  = \<lparr>status = 200, body = ''#EXTM3U''\<rparr>"
    by (cases "fst (playlist upCatalogOnly 10 11 [] (Some ''k'') (Some ''usa'') None)") simp
  have 3: "fst (snd (playlist upCatalogOnly 10 11 [] (Some ''k'') (Some ''usa'') None))
             = [(''k_usa'', \<lparr>m3u = ''#EXTM3U'', timestamp = 11\<rparr>)]"
    using playlist_rebuild[OF a r h c', of 11] playlistText_none_usable[OF u]
    by (simp add: js_str_def)
  from playlist_status[OF a r, of upDown 10 11 "[]" None] d g
  have 4: "status (fst (playlist upDown 10 11 [] (Some ''k'') (Some ''usa'') None)) = 500"
    by blast
  from 1 2 3 4 show ?thesis
    by (metis prod.collapse)
qed

subsection \<open>Deduplication across regions\<close>

lemma map_get_set: "map_get (map_set k v m) k' = (if k' = k then Some v else map_get m k')"
  by (induction m) auto

lemma mergeChannel_dedupStep:
  "mergeChannel region allChannels d =
     (case sportsDoc d of None \<Rightarrow> allChannels | Some (m, s) \<Rightarrow> dedupStep allChannels (region, m, s))"
  by (simp add: mergeChannel_def sportsDoc_def dedupStep_def split: option.splits prod.splits)

lemma foldl_mergeChannel:
  "foldl (mergeChannel region) allChannels ds =
     foldl dedupStep allChannels (map (\<lambda>(m, s). (region, m, s)) (List.map_filter sportsDoc ds))"
proof (induction ds arbitrary: allChannels)
  case Nil
  show ?case by (simp add: List.map_filter_simps)
next
  case (Cons d ds)
  have "foldl (mergeChannel region) allChannels (d # ds) =
          foldl dedupStep (mergeChannel region allChannels d)
            (map (\<lambda>(m, s). (region, m, s)) (List.map_filter sportsDoc ds))"
    using Cons.IH[of "mergeChannel region allChannels d"] by simp
  also have "\<dots> = foldl dedupStep allChannels
                     (map (\<lambda>(m, s). (region, m, s)) (List.map_filter sportsDoc (d # ds)))"
    by (cases "sportsDoc d") (auto simp: List.map_filter_simps mergeChannel_dedupStep[of region allChannels d])
  finally show ?case .
qed

lemma fst_processRegion:
  "fst (processRegion up apikey (allChannels, evs) region) =
     foldl (mergeChannel region) allChannels (regionDocs up apikey region)"
  by (simp add: processRegion_def regionDocs_def catalogOf_def case_prod_beta
           split: sum.splits option.splits)

lemma fst_foldl_processRegion:
  "fst (foldl (processRegion up apikey) (allChannels, evs) regions) =
     foldl dedupStep allChannels (occurrences up apikey regions)"
proof (induction regions arbitrary: allChannels evs)
  case Nil
  show ?case by (simp add: occurrences_def)
next
  case (Cons r rs)
  obtain m' evs' where st: "processRegion up apikey (allChannels, evs) r = (m', evs')"
    by (cases "processRegion up apikey (allChannels, evs) r")
  have m': "m' = foldl dedupStep allChannels (map (\<lambda>(m, s). (r, m, s)) (sportsDocs up apikey r))"
    using fst_processRegion[of up apikey allChannels evs r] st
    by (simp add: foldl_mergeChannel sportsDocs_def)
  have "fst (foldl (processRegion up apikey) (allChannels, evs) (r # rs)) =
          foldl dedupStep m' (occurrences up apikey rs)"
    by (simp add: st Cons.IH)
  also have "\<dots> = foldl dedupStep allChannels (occurrences up apikey (r # rs))"
    by (simp add: m' occurrences_def)
  finally show ?case .
qed

lemma collectChannels_fold:
  "fst (collectChannels up apikey regions) = foldl dedupStep [] (occurrences up apikey regions)"
  by (simp add: collectChannels_def fst_foldl_processRegion)

lemma find_snoc:
  "find P (xs @ [x]) = (case find P xs of Some y \<Rightarrow> Some y | None \<Rightarrow> if P x then Some x else None)"
  by (induction xs) auto

lemma map_get_dedupStep:
  "map_get (dedupStep allChannels (region, m, s)) k =
     (if tvgId m = k \<and> (region = ''usa'' \<or> map_get allChannels k = None)
      then Some (sportsEntry region m s) else map_get allChannels k)"
  by (auto simp: dedupStep_def map_has_def map_get_set)

lemma dedup_fold:
  "map_get (foldl dedupStep allChannels occ) k =
     (case find (\<lambda>(r, m, s). r = ''usa'' \<and> tvgId m = k) (rev occ) of
        Some (r, m, s) \<Rightarrow> Some (sportsEntry r m s)
      | None \<Rightarrow>
          (case map_get allChannels k of
             Some v \<Rightarrow> Some v
           | None \<Rightarrow>
               (case find (\<lambda>(r, m, s). tvgId m = k) occ of
                  Some (r, m, s) \<Rightarrow> Some (sportsEntry r m s)
                | None \<Rightarrow> None)))"
proof (induction occ rule: rev_induct)
  case Nil
  show ?case by (simp split: option.splits)
next
  case (snoc x occ)
  obtain r m s where x: "x = (r, m, s)" by (cases x)
  show ?case
    by (simp add: x map_get_dedupStep snoc.IH find_snoc split: option.splits)
qed

lemma upper_usa: "toUpperCase ''usa'' = ''USA''"
  by code_simp

lemma lower_Sports: "toLowerCase ''Sports'' = ''sports''"
  by code_simp

lemma lower_sports: "toLowerCase ''sports'' = ''sports''"
  by code_simp

lemma lower_News: "toLowerCase ''News'' = ''news''"
  by code_simp

lemma find_sat: "find P xs = Some x \<Longrightarrow> P x \<and> x \<in> set xs"
  by (induction xs) (auto split: if_splits)

lemma occurrence_region:
  "(r, m, s) \<in> set (occurrences up apikey regions) \<Longrightarrow>
   r \<in> set regions \<and> (m, s) \<in> set (sportsDocs up apikey r)"
  by (auto simp: occurrences_def)

lemma occurrence_intro:
  "r \<in> set regions \<Longrightarrow> (m, s) \<in> set (sportsDocs up apikey r) \<Longrightarrow>
   (r, m, s) \<in> set (occurrences up apikey regions)"
  by (force simp: occurrences_def)

text \<open>
  Claim C2.  In the multi-region build, the entry the map ends with for a channel id is
  that of the first occurrence of the id, unless the id occurs in the preferred region
  \<^verbatim>\<open>usa\<close>, whose occurrence overwrites whatever was stored (the last one, should that
  region list the id more than once).  Hence, for every list of regions that contains
  \<^verbatim>\<open>usa\<close>, in any order, an id that occurs in the results of \<^verbatim>\<open>usa\<close> ends with the
  entry of \<^verbatim>\<open>usa\<close>, whose display name is the channel's name followed by \<^verbatim>\<open>(USA)\<close>.
\<close>

theorem preferred_region_wins:
  "map_get (fst (collectChannels up apikey regions)) k =
     (case find (\<lambda>(r, m, s). r = ''usa'' \<and> tvgId m = k) (rev (occurrences up apikey regions)) of
        Some (r, m, s) \<Rightarrow> Some (sportsEntry ''usa'' m s)
      | None \<Rightarrow>
          (case find (\<lambda>(r, m, s). tvgId m = k) (occurrences up apikey regions) of
             Some (r, m, s) \<Rightarrow> Some (sportsEntry r m s)
           | None \<Rightarrow> None))
   \<and> (''usa'' \<in> set regions \<and> (\<exists>m s. (m, s) \<in> set (sportsDocs up apikey ''usa'') \<and> tvgId m = k) \<longrightarrow>
        (\<exists>m s. (m, s) \<in> set (sportsDocs up apikey ''usa'') \<and> tvgId m = k \<and>
               map_get (fst (collectChannels up apikey regions)) k = Some (sportsEntry ''usa'' m s) \<and>
               ch_region (sportsEntry ''usa'' m s) = ''usa'' \<and>
               ch_name (sportsEntry ''usa'' m s) = js_str (name m) @ '' (USA)''))"
proof
  let ?occ = "occurrences up apikey regions"
  let ?P = "\<lambda>(r, m, s). r = ''usa'' \<and> tvgId m = k"
  have eq: "map_get (fst (collectChannels up apikey regions)) k =
     (case find ?P (rev ?occ) of
        Some (r, m, s) \<Rightarrow> Some (sportsEntry ''usa'' m s)
      | None \<Rightarrow>
          (case find (\<lambda>(r, m, s). tvgId m = k) ?occ of
             Some (r, m, s) \<Rightarrow> Some (sportsEntry r m s)
           | None \<Rightarrow> None))"
  proof (cases "find ?P (rev ?occ)")
    case None
    then show ?thesis
      by (simp add: collectChannels_fold dedup_fold)
  next
    case (Some x)
    obtain r m s where x: "x = (r, m, s)" by (cases x)
    from find_sat[OF Some] x have "r = ''usa''" by simp
    with Some x show ?thesis
      by (simp add: collectChannels_fold dedup_fold)
  qed
  show "map_get (fst (collectChannels up apikey regions)) k =
     (case find ?P (rev ?occ) of
        Some (r, m, s) \<Rightarrow> Some (sportsEntry ''usa'' m s)
      | None \<Rightarrow>
          (case find (\<lambda>(r, m, s). tvgId m = k) ?occ of
             Some (r, m, s) \<Rightarrow> Some (sportsEntry r m s)
           | None \<Rightarrow> None))"
    by (rule eq)
  show "''usa'' \<in> set regions \<and> (\<exists>m s. (m, s) \<in> set (sportsDocs up apikey ''usa'') \<and> tvgId m = k) \<longrightarrow>
        (\<exists>m s. (m, s) \<in> set (sportsDocs up apikey ''usa'') \<and> tvgId m = k \<and>
               map_get (fst (collectChannels up apikey regions)) k = Some (sportsEntry ''usa'' m s) \<and>
               ch_region (sportsEntry ''usa'' m s) = ''usa'' \<and>
               ch_name (sportsEntry ''usa'' m s) = js_str (name m) @ '' (USA)'')"
  proof
    assume h: "''usa'' \<in> set regions \<and> (\<exists>m s. (m, s) \<in> set (sportsDocs up apikey ''usa'') \<and> tvgId m = k)"
    then obtain m0 s0 where m0: "(m0, s0) \<in> set (sportsDocs up apikey ''usa'')" "tvgId m0 = k"
      by blast
    from h m0 have "(''usa'', m0, s0) \<in> set (rev ?occ)"
      by (simp add: occurrence_intro)
    with m0 have "find ?P (rev ?occ) \<noteq> None"
      by (auto simp: find_None_iff)
    then obtain r m s where f: "find ?P (rev ?occ) = Some (r, m, s)"
      by (cases "find ?P (rev ?occ)") auto
    from find_sat[OF f] have p: "r = ''usa'' \<and> tvgId m = k" and mem: "(r, m, s) \<in> set ?occ"
      by auto
    from mem p have "(m, s) \<in> set (sportsDocs up apikey ''usa'')"
      using occurrence_region by blast
    moreover from eq f have "map_get (fst (collectChannels up apikey regions)) k = Some (sportsEntry ''usa'' m s)"
      by simp
    ultimately show "\<exists>m s. (m, s) \<in> set (sportsDocs up apikey ''usa'') \<and> tvgId m = k \<and>
               map_get (fst (collectChannels up apikey regions)) k = Some (sportsEntry ''usa'' m s) \<and>
               ch_region (sportsEntry ''usa'' m s) = ''usa'' \<and>
               ch_name (sportsEntry ''usa'' m s) = js_str (name m) @ '' (USA)''"
      using p by (auto simp: sportsEntry_def upper_usa)
  qed
qed

lemma sportsDocs_upRegions:
  "sportsDocs upRegions ''k'' ''usa'' =
     [(\<lparr>tvgId = Some ''espn'', logo = Some ''l1'', genres = Some [''Sports''],
        name = Some ''ESPN'', streams = Some [Some \<lparr>url = Some ''http://us/1''\<rparr>]\<rparr>,
       \<lparr>url = Some ''http://us/1''\<rparr>)]"
  "sportsDocs upRegions ''k'' ''uk'' =
     [(\<lparr>tvgId = Some ''espn'', logo = Some ''l2'', genres = Some [''sports''],
        name = Some ''ESPN UK'', streams = Some [Some \<lparr>url = Some ''http://uk/1''\<rparr>]\<rparr>,
       \<lparr>url = Some ''http://uk/1''\<rparr>)]"
  by (simp_all add: sportsDocs_def regionDocs_def catalogOf_def fetchJson_def upRegions_def
        catalogUrl_def baseUrl_def fetchAll_def retry_loop_unrolled metaUrl_def Let_def
        List.map_filter_simps sportsDoc_def usable_def espnUS_def espnUK_def news1_def
        primaryGenre_def lower_Sports lower_sports lower_News)

theorem preferred_region_wins_witness:
  "map_get (fst (collectChannels upRegions ''k'' [''uk'', ''usa''])) (Some ''espn'') =
     Some \<lparr>ch_tvgId = Some ''espn'', ch_logo = Some ''l1'', ch_genre = ''Sports'',
           ch_name = ''ESPN (USA)'', ch_url = Some ''http://us/1'', ch_region = ''usa''\<rparr>
   \<and> map_get (fst (collectChannels upRegions ''k'' [''usa'', ''uk''])) (Some ''espn'') =
     Some \<lparr>ch_tvgId = Some ''espn'', ch_logo = Some ''l1'', ch_genre = ''Sports'',
           ch_name = ''ESPN (USA)'', ch_url = Some ''http://us/1'', ch_region = ''usa''\<rparr>"
  using preferred_region_wins[of upRegions "''k''" "[''uk'', ''usa'']" "Some ''espn''"]
        preferred_region_wins[of upRegions "''k''" "[''usa'', ''uk'']" "Some ''espn''"]
  by (simp add: occurrences_def sportsDocs_upRegions sportsEntry_def primaryGenre_def
        js_str_def upper_usa)

subsection \<open>The sports filter\<close>

lemma pushEntry_sports:
  "e \<in> set (pushEntry True [] d) \<Longrightarrow>
   \<exists>m s. usable d = Some (m, s) \<and> toLowerCase (primaryGenre m) = ''sports'' \<and>
         e = entryText (tvgId m) (logo m) (primaryGenre m) (js_str (name m)) (url s)"
  by (cases "usable d") (auto simp: pushEntry_def Let_def split: if_splits)

lemma m3uEntriesOf_sports:
  "m3uEntriesOf True results = header # concat (map (pushEntry True []) results)"
  by (simp add: m3uEntriesOf_def foldl_pushEntry)

lemma set_map_set: "set (map_set k v m) \<subseteq> insert (k, v) (set m)"
  by (induction m) (auto split: if_splits)

lemma sportsDoc_genre: "sportsDoc d = Some (m, s) \<Longrightarrow> toLowerCase (primaryGenre m) = ''sports''"
  by (auto simp: sportsDoc_def split: option.splits if_splits)

lemma sportsDocs_genre:
  "(m, s) \<in> set (sportsDocs up apikey region) \<Longrightarrow> toLowerCase (primaryGenre m) = ''sports''"
  by (auto simp: sportsDocs_def List.map_filter_def dest: sportsDoc_genre)

lemma dedupStep_genre:
  assumes "\<forall>p \<in> set allChannels. toLowerCase (ch_genre (snd p)) = ''sports''"
    and "toLowerCase (primaryGenre m) = ''sports''"
  shows "\<forall>p \<in> set (dedupStep allChannels (r, m, s)). toLowerCase (ch_genre (snd p)) = ''sports''"
proof
  fix p assume "p \<in> set (dedupStep allChannels (r, m, s))"
  then have "p \<in> insert (tvgId m, sportsEntry r m s) (set allChannels)"
    using set_map_set[of "tvgId m" "sportsEntry r m s" allChannels]
    by (auto simp: dedupStep_def split: if_splits)
  with assms show "toLowerCase (ch_genre (snd p)) = ''sports''"
    by (auto simp: sportsEntry_def)
qed

lemma foldl_dedupStep_genre:
  assumes "\<forall>p \<in> set allChannels. toLowerCase (ch_genre (snd p)) = ''sports''"
    and "\<forall>(r, m, s) \<in> set occ. toLowerCase (primaryGenre m) = ''sports''"
  shows "\<forall>p \<in> set (foldl dedupStep allChannels occ). toLowerCase (ch_genre (snd p)) = ''sports''"
  using assms
proof (induction occ arbitrary: allChannels)
  case Nil
  then show ?case by simp
next
  case (Cons x occ)
  obtain r m s where x: "x = (r, m, s)" by (cases x)
  from Cons.prems x have g: "toLowerCase (primaryGenre m) = ''sports''" by simp
  have "\<forall>p \<in> set (dedupStep allChannels x). toLowerCase (ch_genre (snd p)) = ''sports''"
    unfolding x by (rule dedupStep_genre[OF Cons.prems(1) g])
  moreover from Cons.prems have "\<forall>(r, m, s) \<in> set occ. toLowerCase (primaryGenre m) = ''sports''"
    by simp
  ultimately show ?case
    using Cons.IH[of "dedupStep allChannels x"] by simp
qed

lemma collectChannels_genre:
  "\<forall>p \<in> set (fst (collectChannels up apikey regions)). toLowerCase (ch_genre (snd p)) = ''sports''"
proof -
  have "\<forall>(r, m, s) \<in> set (occurrences up apikey regions). toLowerCase (primaryGenre m) = ''sports''"
    using occurrence_region sportsDocs_genre by blast
  then show ?thesis
    unfolding collectChannels_fold by (intro foldl_dedupStep_genre) simp_all
qed

text \<open>
  Claim C5.  With the sports filter on, the text \<^verbatim>\<open>buildM3U\<close> returns is the header
  followed by entries each of which is the entry of a fetched document whose primary
  genre lowers to \<^verbatim>\<open>sports\<close>, with that genre as its group title; and every channel
  the multi-region builder writes has a genre that lowers to \<^verbatim>\<open>sports\<close>.  No entry of
  another genre appears.
\<close>

theorem sports_filter_entries:
  "(\<forall>channels. metas catalogData = Some channels \<longrightarrow>
      (\<exists>es. fst (buildM3U up catalogData apikey True) = Inr (js_join newline (header # es)) \<and>
            (\<forall>e \<in> set es.
               \<exists>d m s. d \<in> set (fst (fetchAll up apikey channels)) \<and> usable d = Some (m, s) \<and>
                       toLowerCase (primaryGenre m) = ''sports'' \<and>
                       e = entryText (tvgId m) (logo m) (primaryGenre m) (js_str (name m)) (url s))))
   \<and> (\<exists>cs. fst (buildMultiRegionSportsM3U up apikey regions)
               = js_join newline (header # map channelText cs) \<and>
            (\<forall>c \<in> set cs. toLowerCase (ch_genre c) = ''sports''))"
proof (intro conjI allI impI)
  fix channels assume m: "metas catalogData = Some channels"
  let ?rs = "fst (fetchAll up apikey channels)"
  have "fst (buildM3U up catalogData apikey True)
          = Inr (js_join newline (header # concat (map (pushEntry True []) ?rs)))"
    using m by (simp add: buildM3U_def case_prod_beta m3uEntriesOf_sports)
  moreover have "\<forall>e \<in> set (concat (map (pushEntry True []) ?rs)).
               \<exists>d m s. d \<in> set ?rs \<and> usable d = Some (m, s) \<and>
                       toLowerCase (primaryGenre m) = ''sports'' \<and>
                       e = entryText (tvgId m) (logo m) (primaryGenre m) (js_str (name m)) (url s)"
    using pushEntry_sports by fastforce
  ultimately show "\<exists>es. fst (buildM3U up catalogData apikey True) = Inr (js_join newline (header # es)) \<and>
            (\<forall>e \<in> set es.
               \<exists>d m s. d \<in> set ?rs \<and> usable d = Some (m, s) \<and>
                       toLowerCase (primaryGenre m) = ''sports'' \<and>
                       e = entryText (tvgId m) (logo m) (primaryGenre m) (js_str (name m)) (url s))"
    by blast
next
  let ?cs = "map snd (fst (collectChannels up apikey regions))"
  have "fst (buildMultiRegionSportsM3U up apikey regions) = js_join newline (header # map channelText ?cs)"
    by (simp add: buildMultiRegionSportsM3U_def case_prod_beta comp_def split_def)
  moreover have "\<forall>c \<in> set ?cs. toLowerCase (ch_genre c) = ''sports''"
    using collectChannels_genre[of up apikey regions] by auto
  ultimately show "\<exists>cs. fst (buildMultiRegionSportsM3U up apikey regions)
               = js_join newline (header # map channelText cs) \<and>
            (\<forall>c \<in> set cs. toLowerCase (ch_genre c) = ''sports'')"
    by blast
qed

theorem sports_filter_entries_witness:
  "(\<exists>es. fst (buildM3U upRegions \<lparr>metas = Some [\<lparr>id' = ''us1''\<rparr>, \<lparr>id' = ''c1''\<rparr>]\<rparr> ''k'' True)
           = Inr (js_join newline (header # es)) \<and>
         (\<forall>e \<in> set es.
            \<exists>d m s. d \<in> set (fst (fetchAll upRegions ''k'' [\<lparr>id' = ''us1''\<rparr>, \<lparr>id' = ''c1''\<rparr>])) \<and>
                    usable d = Some (m, s) \<and> toLowerCase (primaryGenre m) = ''sports'' \<and>
                    e = entryText (tvgId m) (logo m) (primaryGenre m) (js_str (name m)) (url s)))
   \<and> fst (buildM3U upRegions \<lparr>metas = Some [\<lparr>id' = ''us1''\<rparr>, \<lparr>id' = ''c1''\<rparr>]\<rparr> ''k'' True)
       = Inr (js_join newline
                [''#EXTM3U'',
                 entryText (Some ''espn'') (Some ''l1'') ''Sports'' ''ESPN'' (Some ''http://us/1'')])"
proof
  have m: "metas \<lparr>metas = Some [\<lparr>id' = ''us1''\<rparr>, \<lparr>id' = ''c1''\<rparr>]\<rparr>
             = Some [\<lparr>id' = ''us1''\<rparr>, \<lparr>id' = ''c1''\<rparr>]"
    by simp
  from sports_filter_entries[of "\<lparr>metas = Some [\<lparr>id' = ''us1''\<rparr>, \<lparr>id' = ''c1''\<rparr>]\<rparr>" upRegions "''k''" "[]"] m
  show "\<exists>es. fst (buildM3U upRegions \<lparr>metas = Some [\<lparr>id' = ''us1''\<rparr>, \<lparr>id' = ''c1''\<rparr>]\<rparr> ''k'' True)
           = Inr (js_join newline (header # es)) \<and>
         (\<forall>e \<in> set es.
            \<exists>d m s. d \<in> set (fst (fetchAll upRegions ''k'' [\<lparr>id' = ''us1''\<rparr>, \<lparr>id' = ''c1''\<rparr>])) \<and>
                    usable d = Some (m, s) \<and> toLowerCase (primaryGenre m) = ''sports'' \<and>
                    e = entryText (tvgId m) (logo m) (primaryGenre m) (js_str (name m)) (url s))"
    by blast
next
  show "fst (buildM3U upRegions \<lparr>metas = Some [\<lparr>id' = ''us1''\<rparr>, \<lparr>id' = ''c1''\<rparr>]\<rparr> ''k'' True)
       = Inr (js_join newline
                [''#EXTM3U'',
                 entryText (Some ''espn'') (Some ''l1'') ''Sports'' ''ESPN'' (Some ''http://us/1'')])"
    by (simp add: buildM3U_def fetchAll_def retry_loop_unrolled Let_def upRegions_def metaUrl_def
          baseUrl_def fetchJson_def m3uEntriesOf_def pushEntry_def usable_def espnUS_def news1_def
          primaryGenre_def lower_Sports lower_News header_def js_str_def)
qed

subsection \<open>The /sports-playlist handler\<close>

lemma codePointStep_concat:
  "codePointStep c (pending, cps) = (pending', cps') \<Longrightarrow>
   pending' @ concat cps' = c # pending @ concat cps"
  by (auto simp: codePointStep_def split: if_splits)

lemma foldr_codePointStep:
  "foldr codePointStep s ([], []) = (pending, cps) \<Longrightarrow> pending @ concat cps = s"
proof (induction s arbitrary: pending cps)
  case Nil
  then show ?case by simp
next
  case (Cons c s)
  obtain p q where pq: "foldr codePointStep s ([], []) = (p, q)"
    by (cases "foldr codePointStep s ([], [])")
  from Cons.IH[OF pq] have "p @ concat q = s" .
  moreover from Cons.prems pq have "codePointStep c (p, q) = (pending, cps)" by simp
  ultimately show ?case
    using codePointStep_concat by fastforce
qed

lemma concat_codePoints: "concat (codePoints s) = s"
proof -
  obtain p q where pq: "foldr codePointStep s ([], []) = (p, q)"
    by (cases "foldr codePointStep s ([], [])")
  from foldr_codePointStep[OF pq] show ?thesis
    by (auto simp: codePoints_def pq)
qed

lemmas trim_eval = trim_def codePoints_def codePointStep_def isContinuation_def isWhiteSpace_def
  whiteSpace_def

lemma trim_examples:
  "trim ''usa'' = ''usa''" "trim '' xx'' = ''xx''" "trim ''uk '' = ''uk''" "trim '' usa'' = ''usa''"
  "trim ''xx'' = ''xx''"
  "trim ([CHR 0xC2, CHR 0xA0] @ ''usa'') = ''usa''"
  "trim (''usa'' @ [CHR 0xE2, CHR 0x80, CHR 0xA8, CHR 0xEF, CHR 0xBB, CHR 0xBF]) = ''usa''"
  "trim [CHR 0xC4, CHR 0xA0] = [CHR 0xC4, CHR 0xA0]"
  by (simp_all add: trim_eval)

lemma sportsPlaylist_cases:
  assumes "truthy apikey"
  shows "sportsPlaylist up now cache apikey regions refresh =
           (if \<not> truthy regions then sportsServe up now cache (js_str apikey) [''usa''] refresh
            else if keptRegions (js_str regions) = [] then
              (\<lparr>status = 400,
                body = ''Error: No valid regions provided. Valid regions: ''
                       @ ''usa, ca, mx, uk, au, cl, fr, it, za, nz, ee''\<rparr>, cache, [])
            else sportsServe up now cache (js_str apikey) (keptRegions (js_str regions)) refresh)"
  using assms by (simp add: sportsPlaylist_def keptRegions_def valid_regions_text Let_def)

lemma sportsServe_down:
  "sportsServe upDown now [] ''k'' [''usa''] None =
     (\<lparr>status = 200, body = ''#EXTM3U''\<rparr>,
      [(''k_sports_usa'', \<lparr>m3u = ''#EXTM3U'', timestamp = now\<rparr>)],
      [Fetch ''https://tv-addon.debridio.com/k/catalog/tv/usa.json''])"
  by (simp add: sportsServe_def freshHit_def truthy_def buildMultiRegionSportsM3U_def
        collectChannels_def processRegion_def upDown_def fetchJson_def catalogUrl_def baseUrl_def
        header_def)

text \<open>
  Claim C9 as stated fails at two requests.  A \<^verbatim>\<open>regions\<close> parameter that is supplied
  but empty has the single token \<^verbatim>\<open>''\<close>, which is no valid region, and yet the handler
  does not answer 400: the test \<^verbatim>\<open>if (regions)\<close> takes the empty string for a missing
  parameter, and the handler builds for \<^verbatim>\<open>usa\<close> and writes the cache.  And the token
  of the parameter \<^verbatim>\<open>" usa"\<close> is not in the set of valid regions, yet it is kept: tokens
  are trimmed before the test.
\<close>

theorem sportsPlaylist_regions_counterexample:
  "js_split CHR '','' [] = [[]] \<and> \<not> js_includes validRegions (Some [])
   \<and> sportsPlaylist upDown 5 [] (Some ''k'') (Some []) None =
       (\<lparr>status = 200, body = ''#EXTM3U''\<rparr>,
        [(''k_sports_usa'', \<lparr>m3u = ''#EXTM3U'', timestamp = 5\<rparr>)],
        [Fetch ''https://tv-addon.debridio.com/k/catalog/tv/usa.json''])
   \<and> js_split CHR '','' '' usa'' = ['' usa''] \<and> \<not> js_includes validRegions (Some '' usa'')
   \<and> sportsPlaylist upDown 5 [] (Some ''k'') (Some '' usa'') None =
       (\<lparr>status = 200, body = ''#EXTM3U''\<rparr>,
        [(''k_sports_usa'', \<lparr>m3u = ''#EXTM3U'', timestamp = 5\<rparr>)],
        [Fetch ''https://tv-addon.debridio.com/k/catalog/tv/usa.json''])"
proof -
  have a: "truthy (Some ''k'')" by (simp add: truthy_def)
  have k: "keptRegions '' usa'' = [''usa'']"
    by (simp add: keptRegions_def trim_examples js_includes_def validRegions_def)
  from sportsPlaylist_cases[OF a, of upDown 5 "[]" "Some []" None]
       sportsPlaylist_cases[OF a, of upDown 5 "[]" "Some '' usa''" None]
  show ?thesis
    by (simp add: truthy_def js_str_def sportsServe_down js_includes_def validRegions_def k)
qed

text \<open>
  Claim C9, amended.  On a request to \<^verbatim>\<open>/sports-playlist\<close> with an API key: if the
  \<^verbatim>\<open>regions\<close> parameter is omitted or empty, the handler goes on with the single region
  \<^verbatim>\<open>usa\<close>; otherwise the parameter is split at commas, every token is trimmed of the
  white space at its ends as \<^verbatim>\<open>String.prototype.trim\<close> does, and the
  trimmed tokens that are not valid regions are dropped; if nothing is left the handler
  answers 400 with the cache unchanged and no upstream request, and else it goes on with
  the list that is left, which holds valid regions only.
\<close>

theorem sportsPlaylist_regions:
  assumes "truthy apikey"
  shows "(\<not> truthy regions \<longrightarrow>
            sportsPlaylist up now cache apikey regions refresh
              = sportsServe up now cache (js_str apikey) [''usa''] refresh)
       \<and> (truthy regions \<and> keptRegions (js_str regions) = [] \<longrightarrow>
            status (fst (sportsPlaylist up now cache apikey regions refresh)) = 400 \<and>
            snd (sportsPlaylist up now cache apikey regions refresh) = (cache, []))
       \<and> (truthy regions \<and> keptRegions (js_str regions) \<noteq> [] \<longrightarrow>
            sportsPlaylist up now cache apikey regions refresh
              = sportsServe up now cache (js_str apikey) (keptRegions (js_str regions)) refresh)
       \<and> set (keptRegions (js_str regions))
            = set (map trim (js_split CHR '','' (js_str regions))) \<inter> set validRegions"
  using sportsPlaylist_cases[OF assms, of up now cache regions refresh]
  by (auto simp: keptRegions_def js_includes_def)

lemma keptRegions_example: "keptRegions ''usa, xx,uk '' = [''usa'', ''uk'']"
  by (simp add: keptRegions_def trim_examples js_includes_def validRegions_def)

lemma keptRegions_example2: "keptRegions ''xx'' = []"
  by (simp add: keptRegions_def trim_examples js_includes_def validRegions_def)

lemma keptRegions_nbsp:
  "keptRegions [CHR 0xC2, CHR 0xA0, CHR ''u'', CHR ''s'', CHR ''a''] = [''usa'']"
  by (simp add: keptRegions_def trim_eval js_includes_def validRegions_def)

lemma keptRegions_usa: "keptRegions ''usa'' = [''usa'']"
  by (simp add: keptRegions_def trim_examples js_includes_def validRegions_def)

theorem sportsPlaylist_regions_witness:
  "sportsPlaylist upDown 5 [] (Some ''k'') None None = sportsServe upDown 5 [] ''k'' [''usa''] None
   \<and> sportsPlaylist upDown 5 [] (Some ''k'') (Some ''usa, xx,uk '') None
       = sportsServe upDown 5 [] ''k'' [''usa'', ''uk''] None
   \<and> sportsPlaylist upDown 5 [] (Some ''k'') (Some ([CHR 0xC2, CHR 0xA0] @ ''usa'')) None
       = sportsServe upDown 5 [] ''k'' [''usa''] None
   \<and> status (fst (sportsPlaylist upDown 5 [] (Some ''k'') (Some ''xx'') None)) = 400
   \<and> snd (sportsPlaylist upDown 5 [] (Some ''k'') (Some ''xx'') None) = ([], [])"
proof -
  have a: "truthy (Some ''k'')" by (simp add: truthy_def)
  have n: "js_str (Some ([CHR 0xC2, CHR 0xA0] @ ''usa'')) = [CHR 0xC2, CHR 0xA0] @ ''usa''"
    by (simp add: js_str_def)
  from sportsPlaylist_regions[OF a, of None upDown 5 "[]" None]
       sportsPlaylist_regions[OF a, of "Some ''usa, xx,uk ''" upDown 5 "[]" None]
       sportsPlaylist_regions[OF a, of "Some ([CHR 0xC2, CHR 0xA0] @ ''usa'')" upDown 5 "[]" None]
       sportsPlaylist_regions[OF a, of "Some ''xx''" upDown 5 "[]" None]
  show ?thesis
    unfolding n
    by (simp add: truthy_def js_str_def keptRegions_example keptRegions_example2 keptRegions_nbsp)
qed

subsection \<open>Rebuilds while the upstream is down\<close>

text \<open>
  Claim C8 does not hold of the program on the \<^verbatim>\<open>/sports-playlist\<close> path.  With the
  upstream down, a forced refresh of the key \<^verbatim>\<open>k_sports_usa\<close>, and likewise a request
  that finds its entry older than 24 hours, rebuilds with every catalog request failing:
  \<^verbatim>\<open>buildMultiRegionSportsM3U\<close> skips the region and returns the bare header, and the
  handler stores it over the entry it had.  On the same upstream the \<^verbatim>\<open>/playlist\<close>
  handler keeps the entry of \<^verbatim>\<open>k_usa\<close> and serves it.
\<close>

theorem sportsPlaylist_outage_overwrites:
  "sportsPlaylist upDown 100 [(''k_sports_usa'', \<lparr>m3u = ''old'', timestamp = 1\<rparr>)]
       (Some ''k'') (Some ''usa'') (Some ''1'')
     = (\<lparr>status = 200, body = ''#EXTM3U''\<rparr>,
        [(''k_sports_usa'', \<lparr>m3u = ''#EXTM3U'', timestamp = 100\<rparr>)],
        [Fetch ''https://tv-addon.debridio.com/k/catalog/tv/usa.json''])
   \<and> sportsPlaylist upDown 86400001 [(''k_sports_usa'', \<lparr>m3u = ''old'', timestamp = 1\<rparr>)]
       (Some ''k'') None None
     = (\<lparr>status = 200, body = ''#EXTM3U''\<rparr>,
        [(''k_sports_usa'', \<lparr>m3u = ''#EXTM3U'', timestamp = 86400001\<rparr>)],
        [Fetch ''https://tv-addon.debridio.com/k/catalog/tv/usa.json''])
   \<and> playlist upDown 100 101 [(''k_usa'', \<lparr>m3u = ''old'', timestamp = 1\<rparr>)]
       (Some ''k'') (Some ''usa'') (Some ''1'')
     = (\<lparr>status = 200, body = ''old''\<rparr>,
        [(''k_usa'', \<lparr>m3u = ''old'', timestamp = 1\<rparr>)],
        [Fetch ''https://tv-addon.debridio.com/k/catalog/tv/usa.json''])"
proof -
  have a: "truthy (Some ''k'')" by (simp add: truthy_def)
  have s: "sportsServe upDown now [(''k_sports_usa'', \<lparr>m3u = ''old'', timestamp = 1\<rparr>)] ''k'' [''usa''] refresh
        = (\<lparr>status = 200, body = ''#EXTM3U''\<rparr>,
           [(''k_sports_usa'', \<lparr>m3u = ''#EXTM3U'', timestamp = now\<rparr>)],
           [Fetch ''https://tv-addon.debridio.com/k/catalog/tv/usa.json''])"
    if "freshHit [(''k_sports_usa'', \<lparr>m3u = ''old'', timestamp = 1\<rparr>)] ''k_sports_usa'' now refresh = None"
    for now refresh
    using that
    by (simp add: sportsServe_def buildMultiRegionSportsM3U_def collectChannels_def
          processRegion_def upDown_def fetchJson_def catalogUrl_def baseUrl_def header_def)
  have f1: "freshHit [(''k_sports_usa'', \<lparr>m3u = ''old'', timestamp = 1\<rparr>)] ''k_sports_usa'' 100 (Some ''1'') = None"
    by (simp add: freshHit_def truthy_def)
  have f2: "freshHit [(''k_sports_usa'', \<lparr>m3u = ''old'', timestamp = 1\<rparr>)] ''k_sports_usa'' 86400001 None = None"
    by (simp add: freshHit_def truthy_def CACHE_DURATION_def)
  have 1: "sportsPlaylist upDown 100 [(''k_sports_usa'', \<lparr>m3u = ''old'', timestamp = 1\<rparr>)]
       (Some ''k'') (Some ''usa'') (Some ''1'')
     = (\<lparr>status = 200, body = ''#EXTM3U''\<rparr>,
        [(''k_sports_usa'', \<lparr>m3u = ''#EXTM3U'', timestamp = 100\<rparr>)],
        [Fetch ''https://tv-addon.debridio.com/k/catalog/tv/usa.json''])"
    using sportsPlaylist_cases[OF a, of upDown 100 _ "Some ''usa''" "Some ''1''"]
    by (simp add: truthy_def js_str_def keptRegions_usa s[OF f1])
  have 2: "sportsPlaylist upDown 86400001 [(''k_sports_usa'', \<lparr>m3u = ''old'', timestamp = 1\<rparr>)]
       (Some ''k'') None None
     = (\<lparr>status = 200, body = ''#EXTM3U''\<rparr>,
        [(''k_sports_usa'', \<lparr>m3u = ''#EXTM3U'', timestamp = 86400001\<rparr>)],
        [Fetch ''https://tv-addon.debridio.com/k/catalog/tv/usa.json''])"
    using sportsPlaylist_cases[OF a, of upDown 86400001 _ None None]
    by (simp add: truthy_def js_str_def s[OF f2])
  have 3: "playlist upDown 100 101 [(''k_usa'', \<lparr>m3u = ''old'', timestamp = 1\<rparr>)]
       (Some ''k'') (Some ''usa'') (Some ''1'')
     = (\<lparr>status = 200, body = ''old''\<rparr>,
        [(''k_usa'', \<lparr>m3u = ''old'', timestamp = 1\<rparr>)],
        [Fetch ''https://tv-addon.debridio.com/k/catalog/tv/usa.json''])"
    by (simp add: playlist_def truthy_def js_includes_def validRegions_def js_str_def freshHit_def
          fetchAndCache_def upDown_def fetchJson_def catalogUrl_def baseUrl_def)
  from 1 2 3 show ?thesis by simp
qed

theorem sportsPlaylist_outage_overwrites_witness:
  "cache_get (fst (snd (sportsPlaylist upDown 100 [(''k_sports_usa'', \<lparr>m3u = ''old'', timestamp = 1\<rparr>)]
                          (Some ''k'') (Some ''usa'') (Some ''1'')))) ''k_sports_usa''
     = Some \<lparr>m3u = ''#EXTM3U'', timestamp = 100\<rparr>
   \<and> cache_get (fst (snd (playlist upDown 100 101 [(''k_usa'', \<lparr>m3u = ''old'', timestamp = 1\<rparr>)]
                          (Some ''k'') (Some ''usa'') (Some ''1'')))) ''k_usa''
     = Some \<lparr>m3u = ''old'', timestamp = 1\<rparr>"
  using sportsPlaylist_outage_overwrites by simp

subsection \<open>The daily refresh\<close>

lemma js_split_no_sep: "c \<notin> set s \<Longrightarrow> js_split c s = [s]"
  by (induction s) auto

lemma js_split_first: "c \<notin> set a \<Longrightarrow> js_split c (a @ c # rest) = a # js_split c rest"
  by (induction a) auto

text \<open>
  A key of the plain shape, whose API key and region hold no underscore, is rebuilt with
  the parameters that made it.
\<close>

lemma refreshKey_plain:
  assumes "CHR ''_'' \<notin> set apikey" and "CHR ''_'' \<notin> set region"
  shows "refreshKey up ts cache (apikey @ ''_'' @ region) = fetchAndCache up ts cache apikey region False"
  using assms
  by (simp add: refreshKey_def js_split_first js_split_no_sep js_str_def)

text \<open>
  Claim C1 does not hold of the program.  The refresh pass splits every key at
  underscores and calls \<^verbatim>\<open>fetchAndCache\<close> with the first two tokens in plain mode,
  whatever the shape of the key.  For the key \<^verbatim>\<open>k_sports_usa\<close>, which
  \<^verbatim>\<open>/sports-playlist\<close> stores for API key \<^verbatim>\<open>k\<close> and region \<^verbatim>\<open>usa\<close>, it requests the
  catalog of a region named \<^verbatim>\<open>sports\<close>; when that request is answered, the result is
  stored under the new key \<^verbatim>\<open>k_sports\<close>, and the entry of \<^verbatim>\<open>k_sports_usa\<close> is not
  rebuilt.
\<close>

theorem refreshPass_sports_key:
  "refreshPass upEmptyCatalogs (\<lambda>key. 9) [(''k_sports_usa'', \<lparr>m3u = ''old'', timestamp = 1\<rparr>)] =
     ([(''k_sports_usa'', \<lparr>m3u = ''old'', timestamp = 1\<rparr>),
       (''k_sports'', \<lparr>m3u = ''#EXTM3U'', timestamp = 9\<rparr>)],
      [Fetch ''https://tv-addon.debridio.com/k/catalog/tv/sports.json''])"
  by (simp add: refreshPass_def refreshKey_def js_str_def fetchAndCache_def upEmptyCatalogs_def
        fetchJson_def buildM3U_def fetchAll_def m3uEntriesOf_def header_def catalogUrl_def
        baseUrl_def)

end
